theory Spec2Isabelle
  imports Complex_Main "HOL-Library.AList"
begin

chapter \<open>The model\<close>

section \<open>Profile store (UserProfileManager)\<close>

text \<open>
  A user profile as the source declares it. \<open>authToken\<close> is optional; \<open>headers\<close> is a
  string-to-string record, kept as its list of entries. Times are epoch milliseconds.
\<close>

datatype color_tag = Blue | Red | Green | Purple | Orange | Yellow

record user_profile =
  p_id :: string
  p_displayName :: string
  p_colorTag :: color_tag
  p_authToken :: "string option"
  p_headers :: "(string \<times> string) list"
  p_createdAt :: int
  p_updatedAt :: int

text \<open>
  The object handed to \<open>updateProfile\<close>. Its static type leaves out \<open>id\<close>,
  \<open>createdAt\<close> and \<open>updatedAt\<close>, but the value comes from outside and is spread as it
  is, so every field of a profile may be present (\<open>Some\<close>) or absent (\<open>None\<close>).
\<close>

record update_profile_input =
  u_id :: "string option"
  u_displayName :: "string option"
  u_colorTag :: "color_tag option"
  u_authToken :: "string option option"
  u_headers :: "(string \<times> string) list option"
  u_createdAt :: "int option"
  u_updatedAt :: "int option"

text \<open>
  The manager's two fields, and the content of \<open>auth.json\<close> (\<open>None\<close>: no file).
\<close>

record profile_store =
  profiles :: "user_profile list"
  activeProfileId :: "string option"
  auth_file :: "(user_profile list \<times> string option) option"

datatype profile_error = ProfileNotFound string

text \<open>\<open>Array.prototype.findIndex\<close>; \<open>None\<close> stands for the result \<open>-1\<close>.\<close>

fun findIndex :: "('a \<Rightarrow> bool) \<Rightarrow> 'a list \<Rightarrow> nat option" where
  "findIndex P [] = None"
| "findIndex P (x # xs) = (if P x then Some 0 else map_option Suc (findIndex P xs))"

text \<open>
  \<open>saveToFile\<close> writes both fields; a failing write is caught and logged, and the file keeps
  its content. \<open>writable\<close> says whether the write succeeds.
\<close>

definition saveToFile :: "bool \<Rightarrow> profile_store \<Rightarrow> profile_store" where
  "saveToFile writable st =
     (if writable then st\<lparr>auth_file := Some (profiles st, activeProfileId st)\<rparr> else st)"

definition getProfile :: "profile_store \<Rightarrow> string \<Rightarrow> user_profile option" where
  "getProfile st i = find (\<lambda>p. p_id p = i) (profiles st)"

text \<open>The object spread \<open>{...existing, ...data}\<close>: a field of \<open>data\<close> that is present wins.\<close>

definition spread_profile :: "user_profile \<Rightarrow> update_profile_input \<Rightarrow> user_profile" where
  "spread_profile existing d =
     \<lparr> p_id = (case u_id d of Some v \<Rightarrow> v | None \<Rightarrow> p_id existing),
       p_displayName = (case u_displayName d of Some v \<Rightarrow> v | None \<Rightarrow> p_displayName existing),
       p_colorTag = (case u_colorTag d of Some v \<Rightarrow> v | None \<Rightarrow> p_colorTag existing),
       p_authToken = (case u_authToken d of Some v \<Rightarrow> v | None \<Rightarrow> p_authToken existing),
       p_headers = (case u_headers d of Some v \<Rightarrow> v | None \<Rightarrow> p_headers existing),
       p_createdAt = (case u_createdAt d of Some v \<Rightarrow> v | None \<Rightarrow> p_createdAt existing),
       p_updatedAt = (case u_updatedAt d of Some v \<Rightarrow> v | None \<Rightarrow> p_updatedAt existing) \<rparr>"

text \<open>
  \<open>updateProfile(id, data)\<close>, with the clock reading \<open>now\<close> of \<open>Date.now()\<close>. The result
  is the thrown error or the returned profile, together with the store afterwards.
\<close>

definition updateProfile ::
  "int \<Rightarrow> bool \<Rightarrow> string \<Rightarrow> update_profile_input \<Rightarrow> profile_store
     \<Rightarrow> (profile_error + user_profile) \<times> profile_store" where
  "updateProfile now writable i d st =
     (case findIndex (\<lambda>p. p_id p = i) (profiles st) of
        None \<Rightarrow> (Inl (ProfileNotFound i), st)
      | Some index \<Rightarrow>
          (let existing = profiles st ! index;
               updated = (spread_profile existing d)
                           \<lparr> p_id := p_id existing,
                             p_createdAt := p_createdAt existing,
                             p_updatedAt := now \<rparr>
           in (Inr updated,
               saveToFile writable (st\<lparr>profiles := (profiles st)[index := updated]\<rparr>))))"

section \<open>JSON values and string operations of the platform\<close>

text \<open>
  The values that tool responses, parameters and parse results range over. An object is
  the list of its entries in the order \<open>Object.entries\<close> enumerates them. Numbers are
  the integer-valued ones, printed in decimal as \<open>String\<close> prints them below
  \<open>10^21\<close>. Strings are lists of characters and \<open>length\<close> is the source's \<open>.length\<close>.
\<close>

datatype json =
    JNull
  | JBool bool
  | JNum int
  | JStr string
  | JArr "json list"
  | JObj "(string \<times> json) list"

text \<open>
  \<open>JSON.parse\<close> is the platform's. The operations that call it take a \<open>json_parser\<close>, a
  function from texts to values that is \<open>None\<close> where \<open>JSON.parse\<close> throws. The type asks
  two things of such a function, which \<open>JSON.parse\<close> has. The value it returns is no bigger
  than the text, where \<open>json_weight\<close> bounds from below the length of any JSON text of a
  value. And the strings of the value are paid for by the quotation marks and backslashes of
  the text: a string or key of the value comes from a literal of the text, whose two
  delimiters are quotation marks, and a quotation mark or backslash inside the string comes
  from an escape sequence, which has a backslash more. \<open>quotes\<close> counts these two characters
  in a text, \<open>quote_weight\<close> counts them in the strings and keys of a value, plus two for each.
  The second property is what makes the walks end that parse texts inside parsed values,
  also where the text is not a string and is converted to one first.
\<close>

fun json_weight :: "json \<Rightarrow> nat" where
  "json_weight JNull = 1"
| "json_weight (JBool b) = 1"
| "json_weight (JNum n) = 1"
| "json_weight (JStr s) = length s + 2"
| "json_weight (JArr xs) = 2 + sum_list (map json_weight xs)"
| "json_weight (JObj fs) = 2 + sum_list (map (\<lambda>e. length (fst e) + 3 + json_weight (snd e)) fs)"

definition quotes :: "string \<Rightarrow> nat" where
  "quotes t = length (filter (\<lambda>c. c = CHR 0x22 \<or> c = CHR 0x5C) t)"

fun quote_weight :: "json \<Rightarrow> nat" where
  "quote_weight JNull = 0"
| "quote_weight (JBool b) = 0"
| "quote_weight (JNum n) = 0"
| "quote_weight (JStr s) = quotes s + 2"
| "quote_weight (JArr xs) = sum_list (map quote_weight xs)"
| "quote_weight (JObj fs) = sum_list (map (\<lambda>e. quotes (fst e) + 2 + quote_weight (snd e)) fs)"

typedef json_parser =
  "{p :: string \<Rightarrow> json option.
      \<forall>t v. p t = Some v \<longrightarrow> json_weight v \<le> length t \<and> quote_weight v \<le> quotes t}"
  by (rule exI [of _ "\<lambda>_. None"]) simp

definition JSON_parse :: "json_parser \<Rightarrow> string \<Rightarrow> json option" where
  "JSON_parse parse t = Rep_json_parser parse t"

lemma JSON_parse_weight: "JSON_parse parse t = Some v \<Longrightarrow> json_weight v \<le> length t"
  using Rep_json_parser [of parse] by (simp add: JSON_parse_def)

lemma JSON_parse_quotes: "JSON_parse parse t = Some v \<Longrightarrow> quote_weight v \<le> quotes t"
  using Rep_json_parser [of parse] by (simp add: JSON_parse_def)

definition is_digit :: "char \<Rightarrow> bool" where
  "is_digit c = (c \<in> set ''0123456789'')"

definition is_lower :: "char \<Rightarrow> bool" where
  "is_lower c = (c \<in> set ''abcdefghijklmnopqrstuvwxyz'')"

definition is_upper :: "char \<Rightarrow> bool" where
  "is_upper c = (c \<in> set ''ABCDEFGHIJKLMNOPQRSTUVWXYZ'')"

definition toLowerCase_char :: "char \<Rightarrow> char" where
  "toLowerCase_char c =
     (case map_of (zip ''ABCDEFGHIJKLMNOPQRSTUVWXYZ'' ''abcdefghijklmnopqrstuvwxyz'') c of
        Some l \<Rightarrow> l
      | None \<Rightarrow> c)"

definition toLowerCase :: "string \<Rightarrow> string" where
  "toLowerCase s = map toLowerCase_char s"

definition startsWith :: "string \<Rightarrow> string \<Rightarrow> bool" where
  "startsWith s pre = (take (length pre) s = pre)"

definition endsWith :: "string \<Rightarrow> string \<Rightarrow> bool" where
  "endsWith s suf = (length suf \<le> length s \<and> drop (length s - length suf) s = suf)"

text \<open>\<open>s.includes(t)\<close>: \<open>t\<close> occurs in \<open>s\<close> as a contiguous substring.\<close>

fun str_includes :: "string \<Rightarrow> string \<Rightarrow> bool" where
  "str_includes [] t = (t = [])"
| "str_includes (c # s) t = (startsWith (c # s) t \<or> str_includes s t)"

text \<open>Decimal printing of a number, as template literals and \<open>String\<close> do it.\<close>

fun show_nat :: "nat \<Rightarrow> string" where
  "show_nat n =
     (if n < 10 then [''0123456789'' ! n]
      else show_nat (n div 10) @ [''0123456789'' ! (n mod 10)])"

declare show_nat.simps [simp del]

definition show_int :: "int \<Rightarrow> string" where
  "show_int i = (if i < 0 then CHR ''-'' # show_nat (nat (- i)) else show_nat (nat i))"

text \<open>\<open>xs.join(sep)\<close> on strings.\<close>

fun join :: "string \<Rightarrow> string list \<Rightarrow> string" where
  "join sep [] = []"
| "join sep [x] = x"
| "join sep (x # y # ys) = x @ sep @ join sep (y # ys)"

text \<open>
  \<open>String(v)\<close>, the conversion that also \<open>JSON.parse\<close> applies to an argument that is not a
  string: a string is itself, a number is printed in decimal, an array is its elements
  converted and joined by commas, with nothing for \<open>null\<close>, and every object is \<open>[object
  Object]\<close>.
\<close>

function (sequential) js_String :: "json \<Rightarrow> string"
and js_String_items :: "json list \<Rightarrow> string list"
where
  "js_String JNull = ''null''"
| "js_String (JBool b) = (if b then ''true'' else ''false'')"
| "js_String (JNum n) = show_int n"
| "js_String (JStr s) = s"
| "js_String (JArr xs) = join '','' (js_String_items xs)"
| "js_String (JObj fs) = ''[object Object]''"
| "js_String_items [] = []"
| "js_String_items (x # xs) = (case x of JNull \<Rightarrow> [] | _ \<Rightarrow> js_String x) # js_String_items xs"
  by pat_completeness auto

termination
  by (relation "measure (\<lambda>x. case x of Inl j \<Rightarrow> size j | Inr js \<Rightarrow> size_list size js)") auto

text \<open>\<open>JSON.parse(v)\<close> for a value \<open>v\<close> of any type.\<close>

definition JSON_parse_value :: "json_parser \<Rightarrow> json \<Rightarrow> json option" where
  "JSON_parse_value parse v = JSON_parse parse (js_String v)"

text \<open>The conversion adds no quotation mark and no backslash.\<close>

lemma quotes_simps [simp]:
  "quotes [] = 0"
  "quotes (c # cs) = (if c = CHR 0x22 \<or> c = CHR 0x5C then 1 else 0) + quotes cs"
  "quotes (xs @ ys) = quotes xs + quotes ys"
  by (simp_all add: quotes_def)

lemma digit_no_quote:
  assumes "k < 10"
  shows "''0123456789'' ! k \<noteq> CHR 0x22 \<and> ''0123456789'' ! k \<noteq> CHR 0x5C"
proof -
  from assms have "k \<in> {0, 1, 2, 3, 4, 5, 6, 7, 8, 9}" by auto
  then show ?thesis by auto
qed

lemma quotes_show_nat: "quotes (show_nat n) = 0"
proof (induction n rule: show_nat.induct)
  case (1 n)
  show ?case
  proof (cases "n < 10")
    case True
    then show ?thesis by (subst show_nat.simps) (simp add: digit_no_quote)
  next
    case False
    with 1 show ?thesis by (subst show_nat.simps) (simp add: digit_no_quote)
  qed
qed

lemma quotes_join:
  "quotes (join '','' xs) = sum_list (map quotes xs)"
  by (induction "'',''" xs rule: join.induct) simp_all

lemma quotes_js_String:
  "quotes (js_String v) \<le> quote_weight v"
  "sum_list (map quotes (js_String_items xs)) \<le> sum_list (map quote_weight xs)"
proof (induction v and xs rule: js_String_js_String_items.induct)
  case (3 n)
  then show ?case by (simp add: show_int_def quotes_show_nat)
next
  case (5 xs)
  then show ?case by (simp add: quotes_join)
next
  case (8 x xs)
  then show ?case by (cases x) simp_all
qed simp_all

section \<open>Resource indexer\<close>

datatype resource_type = Uuid | Numeric | Path | Slug | Unknown

record indexed_resource =
  r_entryId :: string
  r_id :: string
  r_type :: resource_type
  r_fieldName :: string
  r_fieldPath :: string
  r_parentContext :: "(string \<times> json) list"
  r_discoveredByTool :: string
  r_discoveredFromUser :: string
  r_discoveredFromUserName :: string
  r_userColorTag :: color_tag
  r_timestamp :: int

subsection \<open>The patterns of \<open>PATTERNS\<close>\<close>

text \<open>
  Each regular expression is anchored at both ends, so it is a predicate on the whole
  string. The character classes are ASCII; the flag \<open>i\<close> adds the other case.
\<close>

definition is_hex_i :: "char \<Rightarrow> bool" where
  \<comment> \<open>\<open>[0-9a-f]\<close> under the flag \<open>i\<close>\<close>
  "is_hex_i c = (c \<in> set ''0123456789abcdefABCDEF'')"

definition is_alnum_i :: "char \<Rightarrow> bool" where
  \<comment> \<open>\<open>[a-z0-9]\<close> under the flag \<open>i\<close>\<close>
  "is_alnum_i c = (is_lower c \<or> is_upper c \<or> is_digit c)"

definition is_word :: "char \<Rightarrow> bool" where
  \<comment> \<open>\<open>\w\<close>\<close>
  "is_word c = (is_lower c \<or> is_upper c \<or> is_digit c \<or> c = CHR ''_'')"

definition is_ari_char :: "char \<Rightarrow> bool" where
  \<comment> \<open>\<open>[a-z0-9-]\<close>\<close>
  "is_ari_char c = (is_lower c \<or> is_digit c \<or> c = CHR ''-'')"

definition pattern_uuid :: "string \<Rightarrow> bool" where
  \<comment> \<open>\<open>/^[0-9a-f]{8}-[0-9a-f]{4}-[1-5][0-9a-f]{3}-[89ab][0-9a-f]{3}-[0-9a-f]{12}$/i\<close>\<close>
  "pattern_uuid s =
     (length s = 36
      \<and> list_all is_hex_i (take 8 s) \<and> s ! 8 = CHR ''-''
      \<and> list_all is_hex_i (take 4 (drop 9 s)) \<and> s ! 13 = CHR ''-''
      \<and> s ! 14 \<in> set ''12345'' \<and> list_all is_hex_i (take 3 (drop 15 s)) \<and> s ! 18 = CHR ''-''
      \<and> s ! 19 \<in> set ''89abAB'' \<and> list_all is_hex_i (take 3 (drop 20 s)) \<and> s ! 23 = CHR ''-''
      \<and> list_all is_hex_i (drop 24 s))"

definition pattern_numeric :: "string \<Rightarrow> bool" where
  \<comment> \<open>\<open>/^[0-9]{3,}$/\<close>\<close>
  "pattern_numeric s = (3 \<le> length s \<and> list_all is_digit s)"

definition pattern_path :: "string \<Rightarrow> bool" where
  \<comment> \<open>\<open>/^\/[\w\-\/]+$/\<close>\<close>
  "pattern_path s =
     (case s of
        [] \<Rightarrow> False
      | c # r \<Rightarrow> c = CHR ''/'' \<and> r \<noteq> []
                 \<and> list_all (\<lambda>x. is_word x \<or> x = CHR ''-'' \<or> x = CHR ''/'') r)"

definition pattern_slug :: "string \<Rightarrow> bool" where
  \<comment> \<open>\<open>/^[a-z0-9]+[-_][a-z0-9]+[-_a-z0-9]*$/i\<close>: the first run of letters and digits
      is maximal, since the separator is not one of them.\<close>
  "pattern_slug s =
     (takeWhile is_alnum_i s \<noteq> []
      \<and> (case dropWhile is_alnum_i s of
            [] \<Rightarrow> False
          | c # r \<Rightarrow> (c = CHR ''-'' \<or> c = CHR ''_'')
                     \<and> takeWhile is_alnum_i r \<noteq> []
                     \<and> list_all (\<lambda>x. is_alnum_i x \<or> x = CHR ''-'' \<or> x = CHR ''_'') r))"

definition pattern_atlassianAri :: "string \<Rightarrow> bool" where
  \<comment> \<open>\<open>/^ari:cloud:[a-z]+::[a-z0-9-]+\/[a-z0-9-]+$/\<close>\<close>
  "pattern_atlassianAri s =
     (startsWith s ''ari:cloud:''
      \<and> (let r = drop 10 s in
          takeWhile is_lower r \<noteq> []
          \<and> startsWith (dropWhile is_lower r) ''::''
          \<and> (let q = drop 2 (dropWhile is_lower r) in
              takeWhile is_ari_char q \<noteq> []
              \<and> (case dropWhile is_ari_char q of
                    [] \<Rightarrow> False
                  | c # w \<Rightarrow> c = CHR ''/'' \<and> w \<noteq> [] \<and> list_all is_ari_char w))))"

definition pattern_atlassianKey :: "string \<Rightarrow> bool" where
  \<comment> \<open>\<open>/^[A-Z]+-[0-9]+$/\<close>\<close>
  "pattern_atlassianKey s =
     (takeWhile is_upper s \<noteq> []
      \<and> (case dropWhile is_upper s of
            [] \<Rightarrow> False
          | c # d \<Rightarrow> c = CHR ''-'' \<and> d \<noteq> [] \<and> list_all is_digit d))"

definition ID_FIELD_NAMES :: "string list" where
  "ID_FIELD_NAMES =
     [''id'', ''uuid'', ''key'', ''resourceId'', ''objectId'', ''entityId'', ''userId'',
      ''accountId'', ''projectId'', ''issueId'', ''pageId'', ''spaceId'', ''ari'', ''cloudId'',
      ''siteId'', ''workspaceId'', ''boardId'', ''ticketId'', ''documentId'', ''fileId'',
      ''folderId'', ''groupId'', ''teamId'', ''channelId'', ''conversationId'', ''messageId'',
      ''attachmentId'', ''commentId'', ''self'']"

definition detectIdType :: "string \<Rightarrow> resource_type option" where
  "detectIdType v =
     (if length v = 0 then None
      else if length v > 500 then None
      else if pattern_uuid v then Some Uuid
      else if pattern_atlassianAri v then Some Path
      else if pattern_atlassianKey v then Some Slug
      else if pattern_numeric v then Some Numeric
      else if pattern_path v then Some Path
      else if pattern_slug v then Some Slug
      else None)"

definition isIdFieldName :: "string \<Rightarrow> bool" where
  "isIdFieldName fieldName =
     (let lowerName = toLowerCase fieldName in
      list_ex (\<lambda>idField. lowerName = toLowerCase idField
                          \<or> endsWith lowerName (toLowerCase idField)) ID_FIELD_NAMES)"

text \<open>
  The field name of a path: \<open>path.split(".").pop()?.replace(/\[\d+\]$/, "") || ""\<close>, the
  last dot-separated segment with one trailing array index removed.
\<close>

definition last_segment :: "string \<Rightarrow> string" where
  "last_segment path = rev (takeWhile (\<lambda>c. c \<noteq> CHR ''.'') (rev path))"

definition strip_index :: "string \<Rightarrow> string" where
  "strip_index seg =
     (case rev seg of
        [] \<Rightarrow> seg
      | c # r \<Rightarrow>
          if c = CHR '']'' \<and> takeWhile is_digit r \<noteq> []
             \<and> startsWith (dropWhile is_digit r) ''[''
          then rev (drop 1 (dropWhile is_digit r))
          else seg)"

definition fieldName_of :: "string \<Rightarrow> string" where
  "fieldName_of path = strip_index (last_segment path)"

record extracted_id =
  e_id :: string
  e_type :: resource_type
  e_fieldName :: string
  e_fieldPath :: string
  e_parentContext :: "(string \<times> json) list"

text \<open>
  \<open>sanitizeContext\<close>: the primitive entries of the parent object, long strings cut at 200
  characters. An assignment to a key already present replaces its value in place.
\<close>

fun sanitizeContext_loop ::
  "(string \<times> json) list \<Rightarrow> (string \<times> json) list \<Rightarrow> (string \<times> json) list" where
  "sanitizeContext_loop [] result = result"
| "sanitizeContext_loop ((key, v) # es) result =
     sanitizeContext_loop es
       (case v of
          JStr s \<Rightarrow> if length s > 200 then AList.update key (JStr (take 200 s @ ''...'')) result
                    else AList.update key v result
        | JNum n \<Rightarrow> AList.update key v result
        | JBool b \<Rightarrow> AList.update key v result
        | _ \<Rightarrow> result)"

definition sanitizeContext :: "(string \<times> json) list \<Rightarrow> (string \<times> json) list" where
  "sanitizeContext obj = sanitizeContext_loop obj []"

definition parent_context :: "(string \<times> json) list option \<Rightarrow> (string \<times> json) list" where
  \<comment> \<open>\<open>parentObj ? sanitizeContext(parentObj) : {}\<close>\<close>
  "parent_context parentObj = (case parentObj of Some obj \<Rightarrow> sanitizeContext obj | None \<Rightarrow> [])"

text \<open>
  \<open>extractIds\<close> pushes onto the array \<open>results\<close>; the model returns the array afterwards.
  The string branch is a function of its own, the two loops are the mutual companions.
\<close>

definition extractIds_string ::
  "string \<Rightarrow> string \<Rightarrow> extracted_id list \<Rightarrow> (string \<times> json) list option \<Rightarrow> extracted_id list"
  where
  "extractIds_string obj path results parentObj =
     (let fieldName = fieldName_of path;
          emit = (\<lambda>idType. results @
                    [\<lparr> e_id = obj, e_type = idType, e_fieldName = fieldName,
                       e_fieldPath = path, e_parentContext = parent_context parentObj \<rparr>])
      in case (if isIdFieldName fieldName then detectIdType obj else None) of
           Some idType \<Rightarrow> emit idType
         | None \<Rightarrow>
             if pattern_uuid obj \<or> pattern_atlassianKey obj
             then (case detectIdType obj of Some idType \<Rightarrow> emit idType | None \<Rightarrow> results)
             else results)"

definition extractIds_number ::
  "int \<Rightarrow> string \<Rightarrow> extracted_id list \<Rightarrow> (string \<times> json) list option \<Rightarrow> extracted_id list"
  where
  "extractIds_number obj path results parentObj =
     (let fieldName = fieldName_of path
      in if isIdFieldName fieldName \<and> obj > 100
         then results @
                [\<lparr> e_id = show_int obj, e_type = Numeric, e_fieldName = fieldName,
                   e_fieldPath = path, e_parentContext = parent_context parentObj \<rparr>]
         else results)"

function (sequential) extractIds ::
  "json \<Rightarrow> string \<Rightarrow> extracted_id list \<Rightarrow> (string \<times> json) list option \<Rightarrow> extracted_id list"
and extractIds_array ::
  "json list \<Rightarrow> nat \<Rightarrow> string \<Rightarrow> extracted_id list \<Rightarrow> (string \<times> json) list option
     \<Rightarrow> extracted_id list"
and extractIds_object ::
  "(string \<times> json) list \<Rightarrow> string \<Rightarrow> extracted_id list \<Rightarrow> (string \<times> json) list
     \<Rightarrow> extracted_id list"
where
  "extractIds JNull path results parentObj = results"
| "extractIds (JStr s) path results parentObj = extractIds_string s path results parentObj"
| "extractIds (JNum n) path results parentObj = extractIds_number n path results parentObj"
| "extractIds (JBool b) path results parentObj = results"
| "extractIds (JArr items) path results parentObj =
     extractIds_array items 0 path results parentObj"
| "extractIds (JObj objRecord) path results parentObj =
     extractIds_object objRecord path results objRecord"
| "extractIds_array [] index path results parentObj = results"
| "extractIds_array (item # items) index path results parentObj =
     extractIds_array items (Suc index) path
       (extractIds item (path @ ''['' @ show_nat index @ '']'') results
          (case item of JObj itemRecord \<Rightarrow> Some itemRecord | _ \<Rightarrow> parentObj))
       parentObj"
| "extractIds_object [] path results objRecord = results"
| "extractIds_object ((key, v) # es) path results objRecord =
     extractIds_object es path
       (extractIds v (if path \<noteq> [] then path @ ''.'' @ key else key) results (Some objRecord))
       objRecord"
  by pat_completeness auto

termination
  by (relation "measure (\<lambda>x. case x of
          Inl (j, _) \<Rightarrow> size j
        | Inr (Inl (js, _)) \<Rightarrow> size_list size js
        | Inr (Inr (es, _)) \<Rightarrow> size_list (size_prod (\<lambda>_. 0) size) es)") auto

subsection \<open>The indexer's state and \<open>indexResponse\<close>\<close>

record resource_indexer =
  resources :: "indexed_resource list"
  seenIds :: "string set"
  resources_file :: "indexed_resource list option"

definition new_indexer :: resource_indexer where
  \<comment> \<open>the indexer constructed when no \<open>resources.json\<close> exists\<close>
  "new_indexer = \<lparr> resources = [], seenIds = {}, resources_file = None \<rparr>"

text \<open>The text of a content item \<open>{type: "text", text: <string>}\<close>.\<close>

definition text_item :: "json \<Rightarrow> string option" where
  "text_item item =
     (case item of
        JObj fs \<Rightarrow>
          (if map_of fs ''type'' = Some (JStr ''text'')
           then (case map_of fs ''text'' of Some (JStr t) \<Rightarrow> Some t | _ \<Rightarrow> None)
           else None)
      | _ \<Rightarrow> None)"

fun parse_contents :: "json_parser \<Rightarrow> json list \<Rightarrow> json list \<Rightarrow> json list" where
  "parse_contents parse [] parsedContents = parsedContents"
| "parse_contents parse (item # items) parsedContents =
     parse_contents parse items
       (case text_item item of
          Some t \<Rightarrow> (case JSON_parse parse t of Some parsed \<Rightarrow> parsedContents @ [parsed]
                                   | None \<Rightarrow> parsedContents)
        | None \<Rightarrow> parsedContents)"

definition extractMcpContent :: "json_parser \<Rightarrow> json \<Rightarrow> json" where
  "extractMcpContent parse response =
     (case response of
        JObj resp \<Rightarrow>
          (case map_of resp ''content'' of
             Some (JArr content) \<Rightarrow>
               (let parsedContents = parse_contents parse content []
                in if length parsedContents = 1 then parsedContents ! 0
                   else if length parsedContents > 1 then JArr parsedContents
                   else response)
           | _ \<Rightarrow> response)
      | _ \<Rightarrow> response)"

text \<open>
  \<open>userProfileId || "anonymous"\<close>, the profile's display data, and the dedup key
  \<open>`${id}::${userProfileId || "anonymous"}`\<close>.
\<close>

definition user_or_anonymous :: "string option \<Rightarrow> string" where
  "user_or_anonymous userProfileId =
     (case userProfileId of None \<Rightarrow> ''anonymous''
      | Some u \<Rightarrow> if u = [] then ''anonymous'' else u)"

definition uniqueKey :: "string \<Rightarrow> string \<Rightarrow> string" where
  "uniqueKey i user = i @ ''::'' @ user"

definition lookup_profile :: "profile_store \<Rightarrow> string option \<Rightarrow> user_profile option" where
  "lookup_profile pm userProfileId =
     (case userProfileId of None \<Rightarrow> None
      | Some u \<Rightarrow> if u = [] then None else getProfile pm u)"

definition userName_of :: "user_profile option \<Rightarrow> string" where
  "userName_of profile =
     (case profile of None \<Rightarrow> ''Unknown''
      | Some p \<Rightarrow> if p_displayName p = [] then ''Unknown'' else p_displayName p)"

definition userColor_of :: "user_profile option \<Rightarrow> color_tag" where
  "userColor_of profile = (case profile of None \<Rightarrow> Blue | Some p \<Rightarrow> p_colorTag p)"

text \<open>
  The loop over the extracted ids. \<open>uuid k\<close> is what the \<open>k\<close>-th call of
  \<open>randomUUID\<close> within this \<open>indexResponse\<close> returns. The state of the loop is the pair of
  \<open>newResources\<close> and the indexer.
\<close>

fun index_loop ::
  "(nat \<Rightarrow> string) \<Rightarrow> int \<Rightarrow> string option \<Rightarrow> string \<Rightarrow> string \<Rightarrow> color_tag
     \<Rightarrow> extracted_id list \<Rightarrow> indexed_resource list \<times> resource_indexer
     \<Rightarrow> indexed_resource list \<times> resource_indexer" where
  "index_loop uuid now userProfileId toolName userName userColor [] acc = acc"
| "index_loop uuid now userProfileId toolName userName userColor (e # es) (newResources, st) =
     index_loop uuid now userProfileId toolName userName userColor es
       (let key = uniqueKey (e_id e) (user_or_anonymous userProfileId)
        in if key \<notin> seenIds st
           then (let resource =
                       \<lparr> r_entryId = uuid (length newResources),
                         r_id = e_id e, r_type = e_type e, r_fieldName = e_fieldName e,
                         r_fieldPath = e_fieldPath e, r_parentContext = e_parentContext e,
                         r_discoveredByTool = toolName,
                         r_discoveredFromUser = user_or_anonymous userProfileId,
                         r_discoveredFromUserName = userName,
                         r_userColorTag = userColor,
                         r_timestamp = now \<rparr>
                 in (newResources @ [resource],
                     st\<lparr> seenIds := insert key (seenIds st),
                         resources := resources st @ [resource] \<rparr>))
           else (newResources, st))"

definition save_resources :: "bool \<Rightarrow> resource_indexer \<Rightarrow> resource_indexer" where
  "save_resources writable st =
     (if writable then st\<lparr>resources_file := Some (resources st)\<rparr> else st)"

record index_call =
  c_uuid :: "nat \<Rightarrow> string"
  c_now :: int
  c_writable :: bool
  c_profiles :: profile_store
  c_userProfileId :: "string option"
  c_toolName :: string
  c_response :: json

definition indexResponse ::
  "json_parser \<Rightarrow> index_call \<Rightarrow> resource_indexer \<Rightarrow> indexed_resource list \<times> resource_indexer"
  where
  "indexResponse parse c st =
     (let profile = lookup_profile (c_profiles c) (c_userProfileId c);
          userName = userName_of profile;
          userColor = userColor_of profile;
          responseToIndex = extractMcpContent parse (c_response c);
          extracted = extractIds responseToIndex [] [] None;
          (newResources, st') =
             index_loop (c_uuid c) (c_now c) (c_userProfileId c) (c_toolName c)
               userName userColor extracted ([], st)
      in if length newResources > 0
         then (newResources, save_resources (c_writable c) st')
         else (newResources, st'))"

text \<open>A sequence of \<open>indexResponse\<close> calls, one after the other.\<close>

fun index_calls :: "json_parser \<Rightarrow> index_call list \<Rightarrow> resource_indexer \<Rightarrow> resource_indexer" where
  "index_calls parse [] st = st"
| "index_calls parse (c # cs) st = index_calls parse cs (snd (indexResponse parse c st))"

text \<open>A store of two profiles and an update that tries to change id and creation time.\<close>

definition profile_a :: user_profile where
  "profile_a = \<lparr> p_id = ''a'', p_displayName = ''Alice'', p_colorTag = Blue,
      p_authToken = None, p_headers = [], p_createdAt = 10, p_updatedAt = 10 \<rparr>"

definition profile_b :: user_profile where
  "profile_b = \<lparr> p_id = ''b'', p_displayName = ''Bob'', p_colorTag = Red,
      p_authToken = Some ''Bearer t'', p_headers = [], p_createdAt = 20, p_updatedAt = 20 \<rparr>"

definition store_ab :: profile_store where
  "store_ab = \<lparr> profiles = [profile_a, profile_b], activeProfileId = Some ''a'',
      auth_file = None \<rparr>"

definition update_evil :: update_profile_input where
  "update_evil = \<lparr> u_id = Some ''zz'', u_displayName = Some ''Bobby'', u_colorTag = None,
      u_authToken = None, u_headers = None, u_createdAt = Some 0, u_updatedAt = Some 0 \<rparr>"

subsection \<open>Notions the indexer's properties are stated with\<close>

text \<open>
  The text items of a content array that parse as JSON, in order, as the specification
  counts them: an item is a text item when its \<open>type\<close> is \<open>"text"\<close> and its \<open>text\<close> is a
  string.
\<close>

definition parsed_texts :: "json_parser \<Rightarrow> json list \<Rightarrow> json list" where
  "parsed_texts parse content =
     List.map_filter
       (\<lambda>item. case text_item item of Some t \<Rightarrow> JSON_parse parse t | None \<Rightarrow> None) content"

text \<open>
  The invariant of the index: no two entries share the pair of \<open>id\<close> and
  \<open>discoveredFromUser\<close>, and the dedup key of every entry is in \<open>seenIds\<close>.
\<close>

definition indexer_inv :: "resource_indexer \<Rightarrow> bool" where
  "indexer_inv st =
     (distinct (map (\<lambda>r. (r_id r, r_discoveredFromUser r)) (resources st))
      \<and> list_all (\<lambda>r. uniqueKey (r_id r) (r_discoveredFromUser r) \<in> seenIds st) (resources st))"

text \<open>
  Example data: the response of scenario S1, and the values of \<open>JSON.parse\<close> on the texts
  the examples use (every other text is taken not to parse).
\<close>

definition s1_text :: string where
  \<open>s1_text = ''{"results":[{"id":"550e8400-e29b-41d4-a716-446655440000","title":"hello"}]}''\<close>

definition s1_value :: json where
  "s1_value = JObj [(''results'', JArr [JObj
       [(''id'', JStr ''550e8400-e29b-41d4-a716-446655440000''), (''title'', JStr ''hello'')]])]"

definition id1_text :: string where
  \<open>id1_text = ''{"id":1}''\<close>

definition id2_text :: string where
  \<open>id2_text = ''{"id":2}''\<close>

definition select_X_text :: string where
  \<open>select_X_text = ''{"tool":"X","reason":"next"}''\<close>

definition parse_demo_fun :: "string \<Rightarrow> json option" where
  "parse_demo_fun t =
     (if t = s1_text then Some s1_value
      else if t = ''[1,2]'' then Some (JArr [JNum 1, JNum 2])
      else if t = ''7'' then Some (JNum 7)
      else if t = id1_text then Some (JObj [(''id'', JNum 1)])
      else if t = id2_text then Some (JObj [(''id'', JNum 2)])
      else if t = select_X_text
      then Some (JObj [(''tool'', JStr ''X''), (''reason'', JStr ''next'')])
      else None)"

definition parse_demo :: json_parser where
  "parse_demo = Abs_json_parser parse_demo_fun"

definition text_content :: "string \<Rightarrow> json" where
  "text_content t = JObj [(''type'', JStr ''text''), (''text'', JStr t)]"

definition s1_response :: json where
  "s1_response = JObj [(''content'', JArr [text_content s1_text])]"

definition s1_call :: index_call where
  "s1_call = \<lparr> c_uuid = (\<lambda>k. ''entry-'' @ show_nat k), c_now = 1000, c_writable = True,
      c_profiles = store_ab, c_userProfileId = Some ''u1'', c_toolName = ''listThings'',
      c_response = s1_response \<rparr>"

section \<open>Resource graph\<close>

datatype node_type = ToolNode | ResourceNode

datatype node_status = Pending | Running | Completed | Failed | Skipped

record resource_node =
  n_id :: string
  n_type :: node_type
  n_name :: string
  n_data :: "(string \<times> json) list"
  n_timestamp :: int
  n_status :: node_status

record resource_edge =
  g_id :: string
  g_source :: string
  g_target :: string
  g_relation :: string
  g_paramName :: string

text \<open>
  A flattened result is an object used as a dictionary: the list of its entries, where
  an assignment to a key already present replaces the value in place (\<open>AList.update\<close>)
  and \<open>map_of\<close> reads a key. The maps \<open>nodes\<close> and \<open>toolResults\<close> are kept the same way.
\<close>

type_synonym flat_record = "(string \<times> json) list"

record resource_graph =
  nodes :: "(string \<times> resource_node) list"
  edges :: "resource_edge list"
  toolResults :: "(string \<times> flat_record) list"

definition new_graph :: resource_graph where
  "new_graph = \<lparr> nodes = [], edges = [], toolResults = [] \<rparr>"

definition addPendingTool :: "int \<Rightarrow> string \<Rightarrow> resource_graph \<Rightarrow> string \<times> resource_graph" where
  "addPendingTool now toolName g =
     (let nodeId = ''tool_'' @ toolName @ ''_'' @ show_int now
      in (nodeId,
          g\<lparr>nodes := AList.update nodeId
                \<lparr> n_id = nodeId, n_type = ToolNode, n_name = toolName, n_data = [],
                  n_timestamp = now, n_status = Pending \<rparr> (nodes g)\<rparr>))"

definition markToolRunning :: "string \<Rightarrow> json \<Rightarrow> resource_graph \<Rightarrow> resource_graph" where
  "markToolRunning nodeId params g =
     (case map_of (nodes g) nodeId of
        None \<Rightarrow> g
      | Some node \<Rightarrow>
          g\<lparr>nodes := AList.update nodeId
                (node\<lparr>n_status := Running,
                      n_data := AList.update ''params'' params (n_data node)\<rparr>) (nodes g)\<rparr>)"

definition markToolFailed :: "string \<Rightarrow> string \<Rightarrow> resource_graph \<Rightarrow> resource_graph" where
  "markToolFailed nodeId err g =
     (case map_of (nodes g) nodeId of
        None \<Rightarrow> g
      | Some node \<Rightarrow>
          g\<lparr>nodes := AList.update nodeId
                (node\<lparr>n_status := Failed,
                      n_data := AList.update ''error'' (JStr err) (n_data node)\<rparr>) (nodes g)\<rparr>)"

definition markToolSkipped ::
  "string \<Rightarrow> string \<Rightarrow> string list \<Rightarrow> resource_graph \<Rightarrow> resource_graph" where
  "markToolSkipped nodeId reason missingParams g =
     (case map_of (nodes g) nodeId of
        None \<Rightarrow> g
      | Some node \<Rightarrow>
          g\<lparr>nodes := AList.update nodeId
                (node\<lparr>n_status := Skipped,
                      n_data := AList.update ''missingParams'' (JArr (map JStr missingParams))
                                  (AList.update ''skipReason'' (JStr reason) (n_data node))\<rparr>)
                (nodes g)\<rparr>)"

text \<open>\<open>getToolNodeId\<close>: the tool node of that name with the greatest timestamp, the first
  of them in insertion order.\<close>

fun latest_node :: "string \<Rightarrow> resource_node list \<Rightarrow> resource_node option \<Rightarrow> resource_node option"
  where
  "latest_node toolName [] latestNode = latestNode"
| "latest_node toolName (node # ns) latestNode =
     latest_node toolName ns
       (if n_type node = ToolNode \<and> n_name node = toolName
        then (case latestNode of
                None \<Rightarrow> Some node
              | Some l \<Rightarrow> if n_timestamp node > n_timestamp l then Some node else latestNode)
        else latestNode)"

definition getToolNodeId :: "string \<Rightarrow> resource_graph \<Rightarrow> string option" where
  "getToolNodeId toolName g = map_option n_id (latest_node toolName (map snd (nodes g)) None)"

definition toVisualizationFormat :: "resource_graph \<Rightarrow> resource_node list \<times> resource_edge list"
  where
  "toVisualizationFormat g = (map snd (nodes g), edges g)"

definition clear :: "resource_graph \<Rightarrow> resource_graph" where
  "clear g = g\<lparr>nodes := [], edges := [], toolResults := []\<rparr>"

subsection \<open>\<open>flattenResult\<close>\<close>

text \<open>
  The object \<open>flat\<close> that a call of \<open>flattenResult\<close> fills: its own properties, and whether
  it still inherits from \<open>Object.prototype\<close>. It does when it is created (\<open>{}\<close>).
\<close>

type_synonym flat_object = "flat_record \<times> bool"

definition new_object :: flat_object where
  "new_object = ([], True)"

text \<open>
  \<open>flat[k] = v\<close>. Every key is created or updated as an own property, except \<open>__proto__\<close>
  as long as \<open>flat\<close> inherits this accessor and has no own property of the name: then the
  setter of the accessor runs, which for \<open>null\<close> removes the prototype of \<open>flat\<close>, and with it
  the accessor, and ignores any other value that is not an object. (The walk assigns an
  object only under a key that ends in \<open>_array\<close>.)
\<close>

definition set_property :: "string \<Rightarrow> json \<Rightarrow> flat_object \<Rightarrow> flat_object" where
  "set_property k v flat =
     (case flat of (props, inherits) \<Rightarrow>
        if k = ''__proto__'' \<and> inherits \<and> map_of props k = None
        then (props, v \<noteq> JNull)
        else (AList.update k v props, inherits))"

text \<open>
  \<open>Object.assign(target, source)\<close>: the own properties of \<open>source\<close> are assigned to \<open>target\<close>
  in order.
\<close>

definition Object_assign :: "flat_object \<Rightarrow> flat_record \<Rightarrow> flat_object" where
  "Object_assign target source = fold (\<lambda>(k, v). set_property k v) source target"

text \<open>
  The content items that a walk looks at (\<open>item && typeof item === "object" && "text" in
  item\<close>) are the objects with a property \<open>text\<close>. Its value goes to \<open>JSON.parse\<close> as it is,
  whatever its type.
\<close>

definition item_text :: "json \<Rightarrow> json option" where
  "item_text item = (case item of JObj fs \<Rightarrow> map_of fs ''text'' | _ \<Rightarrow> None)"

lemma json_weight_pos: "0 < json_weight j"
  by (cases j) simp_all

lemma quote_weight_entry: "(k, v) \<in> set fs \<Longrightarrow> quote_weight v + 2 \<le> quote_weight (JObj fs)"
  by (induction fs) auto

lemma quote_weight_map_of: "map_of fs k = Some v \<Longrightarrow> quote_weight v + 2 \<le> quote_weight (JObj fs)"
  by (drule map_of_SomeD) (rule quote_weight_entry)

lemma quote_weight_item_text:
  "item_text item = Some v \<Longrightarrow> quotes (js_String v) < quote_weight item"
  using quotes_js_String(1) [of v]
  by (auto simp: item_text_def split: json.splits dest!: quote_weight_map_of)

definition is_object :: "json \<Rightarrow> bool" where
  \<comment> \<open>\<open>typeof value === "object" && value !== null\<close>\<close>
  "is_object v = (case v of JObj fs \<Rightarrow> True | JArr xs \<Rightarrow> True | _ \<Rightarrow> False)"

text \<open>
  \<open>flattenResult(result, prefix)\<close> returns the object \<open>flat\<close>. The loop over the content
  items and the loop over the entries of an object carry \<open>flat\<close> along. A text that parses
  is walked in turn; the walk ends because the quotation marks get fewer from a value to
  the value parsed from a text inside it.
\<close>

function (sequential) flattenResult :: "json_parser \<Rightarrow> json \<Rightarrow> string \<Rightarrow> flat_record"
and flatten_content :: "json_parser \<Rightarrow> json list \<Rightarrow> string \<Rightarrow> flat_object \<Rightarrow> flat_object"
and flatten_entries ::
  "json_parser \<Rightarrow> (string \<times> json) list \<Rightarrow> string \<Rightarrow> flat_object \<Rightarrow> flat_object"
where
  "flattenResult parse (JObj fs) prefix =
     (case map_of fs ''content'' of
        Some (JArr content) \<Rightarrow> fst (flatten_content parse content prefix new_object)
      | _ \<Rightarrow> fst (flatten_entries parse fs prefix new_object))"
| "flattenResult parse (JArr []) prefix = []"
| "flattenResult parse (JArr (first # rest)) prefix =
     fst (set_property (prefix @ ''_array'') (JArr (first # rest))
            (Object_assign new_object (flattenResult parse first prefix)))"
| "flattenResult parse v prefix = []"
| "flatten_content parse [] prefix flat = flat"
| "flatten_content parse (item # items) prefix flat =
     flatten_content parse items prefix
       (case item_text item of
          None \<Rightarrow> flat
        | Some itemText \<Rightarrow>
            (case JSON_parse_value parse itemText of
               None \<Rightarrow> flat
             | Some parsed \<Rightarrow> Object_assign flat (flattenResult parse parsed prefix)))"
| "flatten_entries parse [] prefix flat = flat"
| "flatten_entries parse ((key, v) # es) prefix flat =
     flatten_entries parse es prefix
       (let newPrefix = (if prefix \<noteq> [] then prefix @ ''.'' @ key else key)
        in if is_object v
           then Object_assign flat (flattenResult parse v newPrefix)
           else set_property newPrefix v (set_property key v flat))"
  by pat_completeness auto

termination
  apply (relation "inv_image (less_than <*lex*> less_than) (\<lambda>x. case x of
          Inl (p, j, _) \<Rightarrow> (quote_weight j, json_weight j)
        | Inr (Inl (p, js, _)) \<Rightarrow>
            (sum_list (map quote_weight js), Suc (sum_list (map json_weight js)))
        | Inr (Inr (p, es, _)) \<Rightarrow>
            (sum_list (map (\<lambda>e. quotes (fst e) + 2 + quote_weight (snd e)) es),
             Suc (sum_list (map (\<lambda>e. length (fst e) + 3 + json_weight (snd e)) es))))")
  apply simp_all
  subgoal
    by (intro wf_inv_image wf_lex_prod wf_less_than)
  subgoal for fs x2 content
    using quote_weight_map_of [of fs "''content''" "JArr content"] by simp
  subgoal for rest
    by (induction rest) auto
  subgoal for parse item items v parsed
    using JSON_parse_quotes [of parse "js_String v" parsed] quote_weight_item_text [of item v]
    by (simp add: JSON_parse_value_def)
  subgoal for parse item prefix
    using json_weight_pos [of item] by auto
  done

subsection \<open>\<open>extractResources\<close>\<close>

definition graph_isIdFieldName :: "string \<Rightarrow> bool" where
  "graph_isIdFieldName key =
     (let lowerKey = toLowerCase key in
      if endsWith lowerKey ''id'' then True
      else if endsWith lowerKey ''key'' \<and> \<not> str_includes lowerKey ''api''
              \<and> \<not> str_includes lowerKey ''secret'' then True
      else if lowerKey \<in> set [''uuid'', ''slug'', ''name'', ''code'', ''handle'', ''identifier'']
      then True
      else False)"

definition isIdLikeValue :: "json \<Rightarrow> bool" where
  \<comment> \<open>\<open>value.split(" ").length\<close> is the number of spaces plus one\<close>
  "isIdLikeValue v =
     (case v of
        JStr s \<Rightarrow>
          if length s = 0 \<or> length s > 100 then False
          else if str_includes s ''  '' \<or> Suc (length (filter (\<lambda>c. c = CHR '' '') s)) > 3
          then False
          else if startsWith s ''http://'' \<or> startsWith s ''https://'' then False
          else True
      | _ \<Rightarrow> False)"

definition string_of_value :: "json \<Rightarrow> string" where
  \<comment> \<open>the value in a template literal; used on strings only\<close>
  "string_of_value v = (case v of JStr s \<Rightarrow> s | _ \<Rightarrow> [])"

definition discover_resource ::
  "int \<Rightarrow> string \<Rightarrow> string \<Rightarrow> json \<Rightarrow> string \<Rightarrow> resource_graph \<Rightarrow> resource_graph" where
  "discover_resource now parentNodeId key v path g =
     (let resourceId = ''resource_'' @ key @ ''_'' @ string_of_value v;
          g1 = (if map_of (nodes g) resourceId = None
                then g\<lparr>nodes := AList.update resourceId
                       \<lparr> n_id = resourceId, n_type = ResourceNode,
                         n_name = key @ '': '' @ string_of_value v,
                         n_data = [(''fieldName'', JStr key), (''value'', v),
                                   (''path'', JStr (path @ ''.'' @ key))],
                         n_timestamp = now, n_status = Completed \<rparr> (nodes g)\<rparr>
                else g)
      in g1\<lparr>edges := edges g1 @
             [\<lparr> g_id = ''edge_'' @ parentNodeId @ ''_'' @ resourceId, g_source = parentNodeId,
                g_target = resourceId, g_relation = ''discovered'', g_paramName = key \<rparr>]\<rparr>)"

lemma size_list_take: "size_list f (take n xs) \<le> size_list f xs"
proof (induction xs arbitrary: n)
  case Nil
  then show ?case by simp
next
  case (Cons x xs)
  then show ?case by (cases n) (auto simp: le_SucI)
qed

function (sequential) extractFromObject ::
  "int \<Rightarrow> string \<Rightarrow> json \<Rightarrow> string \<Rightarrow> resource_graph \<Rightarrow> resource_graph"
and extractFromArray ::
  "int \<Rightarrow> string \<Rightarrow> json list \<Rightarrow> nat \<Rightarrow> string \<Rightarrow> resource_graph \<Rightarrow> resource_graph"
and extractFromEntries ::
  "int \<Rightarrow> string \<Rightarrow> (string \<times> json) list \<Rightarrow> string \<Rightarrow> resource_graph \<Rightarrow> resource_graph"
where
  "extractFromObject now parentNodeId (JArr items) path g =
     extractFromArray now parentNodeId (take 10 items) 0 path g"
| "extractFromObject now parentNodeId (JObj fs) path g =
     extractFromEntries now parentNodeId fs path g"
| "extractFromObject now parentNodeId v path g = g"
| "extractFromArray now parentNodeId [] i path g = g"
| "extractFromArray now parentNodeId (item # items) i path g =
     extractFromArray now parentNodeId items (Suc i) path
       (extractFromObject now parentNodeId item (path @ ''['' @ show_nat i @ '']'') g)"
| "extractFromEntries now parentNodeId [] path g = g"
| "extractFromEntries now parentNodeId ((key, v) # es) path g =
     extractFromEntries now parentNodeId es path
       (if graph_isIdFieldName key \<and> isIdLikeValue v
        then discover_resource now parentNodeId key v path g
        else extractFromObject now parentNodeId v (path @ ''.'' @ key) g)"
  by pat_completeness auto

termination
  apply (relation "measure (\<lambda>x. case x of
          Inl (_, _, j, _) \<Rightarrow> size j
        | Inr (Inl (_, _, js, _)) \<Rightarrow> size_list size js
        | Inr (Inr (_, _, es, _)) \<Rightarrow> size_list (size_prod (\<lambda>_. 0) size) es)")
  apply simp_all
  subgoal for items
    using size_list_take [of size 10 items] by simp
  done

text \<open>
  The content items of a tool result: each \<open>text\<close> that parses is walked under the path
  \<open>result\<close>. (For a parsed \<open>null\<close> the source's logging throws inside the \<open>try\<close>; the walk
  of \<open>null\<close> adds nothing either way.)
\<close>

fun extract_content ::
  "json_parser \<Rightarrow> int \<Rightarrow> string \<Rightarrow> json list \<Rightarrow> resource_graph \<Rightarrow> resource_graph" where
  "extract_content parse now parentNodeId [] g = g"
| "extract_content parse now parentNodeId (item # items) g =
     extract_content parse now parentNodeId items
       (case item_text item of
          None \<Rightarrow> g
        | Some itemText \<Rightarrow>
            (case JSON_parse_value parse itemText of
               None \<Rightarrow> g
             | Some parsed \<Rightarrow> extractFromObject now parentNodeId parsed ''result'' g))"

definition extractResources ::
  "json_parser \<Rightarrow> int \<Rightarrow> string \<Rightarrow> json \<Rightarrow> resource_graph \<Rightarrow> resource_graph" where
  "extractResources parse now parentNodeId result g =
     (case result of
        JObj fs \<Rightarrow>
          (case map_of fs ''content'' of
             Some (JArr content) \<Rightarrow> extract_content parse now parentNodeId content g
           | _ \<Rightarrow> extractFromObject now parentNodeId result ''result'' g)
      | _ \<Rightarrow> extractFromObject now parentNodeId result ''result'' g)"

definition param_edges ::
  "string \<Rightarrow> (string \<times> string) list \<Rightarrow> resource_graph \<Rightarrow> resource_edge list" where
  "param_edges nodeId paramSources g =
     map (\<lambda>(paramName, sourceNodeId).
            \<lparr> g_id = ''edge_'' @ sourceNodeId @ ''_'' @ nodeId @ ''_'' @ paramName,
              g_source = sourceNodeId, g_target = nodeId,
              g_relation = ''provided_'' @ paramName, g_paramName = paramName \<rparr>)
       (filter (\<lambda>(paramName, sourceNodeId).
                  sourceNodeId \<noteq> [] \<and> map_of (nodes g) sourceNodeId \<noteq> None) paramSources)"

definition recordToolExecution ::
  "json_parser \<Rightarrow> int \<Rightarrow> string \<Rightarrow> json \<Rightarrow> (string \<times> string) list \<Rightarrow> resource_graph
     \<Rightarrow> resource_graph" where
  "recordToolExecution parse now nodeId result paramSources g =
     (case map_of (nodes g) nodeId of
        None \<Rightarrow> g
      | Some node \<Rightarrow>
          (let g1 = g\<lparr>nodes := AList.update nodeId
                        (node\<lparr>n_status := Completed,
                              n_data := AList.update ''result'' result (n_data node)\<rparr>) (nodes g),
                      toolResults := AList.update (n_name node) (flattenResult parse result [])
                                       (toolResults g)\<rparr>;
               g2 = g1\<lparr>edges := edges g1 @ param_edges nodeId paramSources g1\<rparr>
           in extractResources parse now nodeId result g2))"

subsection \<open>What the walk of \<open>flattenResult\<close> visits\<close>

text \<open>
  The leaves and the arrays that the walk visits, in the order of the visit. A leaf is an
  entry of an object whose value is neither an object nor an array; it is visited with
  its bare key and its full dotted path. The walk looks at the first element of an array
  only, and inside a tool-call envelope at the parsed texts only.
\<close>

datatype flat_visit = Leaf string string json | ArrayMark string json

function (sequential) flatten_visits :: "json_parser \<Rightarrow> json \<Rightarrow> string \<Rightarrow> flat_visit list"
and content_visits :: "json_parser \<Rightarrow> json list \<Rightarrow> string \<Rightarrow> flat_visit list"
and entries_visits :: "json_parser \<Rightarrow> (string \<times> json) list \<Rightarrow> string \<Rightarrow> flat_visit list"
where
  "flatten_visits parse (JObj fs) prefix =
     (case map_of fs ''content'' of
        Some (JArr content) \<Rightarrow> content_visits parse content prefix
      | _ \<Rightarrow> entries_visits parse fs prefix)"
| "flatten_visits parse (JArr []) prefix = []"
| "flatten_visits parse (JArr (first # rest)) prefix =
     flatten_visits parse first prefix @ [ArrayMark (prefix @ ''_array'') (JArr (first # rest))]"
| "flatten_visits parse v prefix = []"
| "content_visits parse [] prefix = []"
| "content_visits parse (item # items) prefix =
     (case item_text item of
        None \<Rightarrow> []
      | Some itemText \<Rightarrow>
          (case JSON_parse_value parse itemText of
             None \<Rightarrow> []
           | Some parsed \<Rightarrow> flatten_visits parse parsed prefix))
     @ content_visits parse items prefix"
| "entries_visits parse [] prefix = []"
| "entries_visits parse ((key, v) # es) prefix =
     (let newPrefix = (if prefix \<noteq> [] then prefix @ ''.'' @ key else key)
      in if is_object v then flatten_visits parse v newPrefix else [Leaf key newPrefix v])
     @ entries_visits parse es prefix"
  by pat_completeness auto

termination
  apply (relation "inv_image (less_than <*lex*> less_than) (\<lambda>x. case x of
          Inl (p, j, _) \<Rightarrow> (quote_weight j, json_weight j)
        | Inr (Inl (p, js, _)) \<Rightarrow>
            (sum_list (map quote_weight js), Suc (sum_list (map json_weight js)))
        | Inr (Inr (p, es, _)) \<Rightarrow>
            (sum_list (map (\<lambda>e. quotes (fst e) + 2 + quote_weight (snd e)) es),
             Suc (sum_list (map (\<lambda>e. length (fst e) + 3 + json_weight (snd e)) es))))")
  apply simp_all
  subgoal
    by (intro wf_inv_image wf_lex_prod wf_less_than)
  subgoal for fs x2 content
    using quote_weight_map_of [of fs "''content''" "JArr content"] by simp
  subgoal for rest
    by (induction rest) auto
  subgoal for parse item items v parsed
    using JSON_parse_quotes [of parse "js_String v" parsed] quote_weight_item_text [of item v]
    by (simp add: JSON_parse_value_def)
  subgoal for item
    using json_weight_pos [of item] by auto
  done

text \<open>The assignments \<open>flat[k] = v\<close> that a visit makes.\<close>

fun visit_writes :: "flat_visit \<Rightarrow> (string \<times> json) list" where
  "visit_writes (Leaf key path v) = [(key, v), (path, v)]"
| "visit_writes (ArrayMark k v) = [(k, v)]"

definition writes_of :: "flat_visit list \<Rightarrow> (string \<times> json) list" where
  "writes_of vs = concat (map visit_writes vs)"

text \<open>Example data for the walk.\<close>

definition nested_distinct :: json where
  "nested_distinct = JObj [(''a'', JObj [(''id'', JNum 1)]), (''b'', JObj [(''name'', JStr ''x'')])]"

definition nested_shared :: json where
  "nested_shared = JObj [(''a'', JObj [(''id'', JNum 1)]), (''b'', JObj [(''id'', JNum 2)])]"

definition nested_proto :: json where
  "nested_proto = JObj [(''a'', JObj [(''__proto__'', JNum 1)])]"

text \<open>
  A content item whose \<open>text\<close> is the array \<open>[id2_text]\<close>, which \<open>JSON.parse\<close> converts to the
  string \<open>id2_text\<close>; the envelope of this item alone, and the one with an item before it
  whose \<open>text\<close> is the string \<open>id1_text\<close>.
\<close>

definition array_text_item :: json where
  "array_text_item = JObj [(''type'', JStr ''text''), (''text'', JArr [JStr id2_text])]"

definition array_text_envelope :: json where
  "array_text_envelope = JObj [(''content'', JArr [array_text_item])]"

definition two_texts_envelope :: json where
  "two_texts_envelope = JObj [(''content'', JArr [text_content id1_text, array_text_item])]"

section \<open>LLM client (Gemini)\<close>

text \<open>
  A tool descriptor: the name, the description and \<open>inputSchema?.required\<close> (\<open>None\<close> when
  the schema or its \<open>required\<close> list is absent). The \<open>properties\<close> of the schema only go
  into prompts.
\<close>

record tool_info =
  t_name :: string
  t_description :: "string option"
  t_required :: "string list option"

definition required_of :: "tool_info \<Rightarrow> string list" where
  \<comment> \<open>\<open>tool.inputSchema?.required || []\<close>\<close>
  "required_of tool = (case t_required tool of Some r \<Rightarrow> r | None \<Rightarrow> [])"

subsection \<open>\<open>JSON.stringify\<close> and \<open>trim\<close>\<close>

text \<open>
  \<open>JSON.stringify(value)\<close> without indentation, as the platform defines it: strings are
  quoted with the two-character escapes and \<open>\u00XX\<close> for the other control characters.
\<close>

definition hex_digit :: "nat \<Rightarrow> char" where
  "hex_digit n = ''0123456789abcdef'' ! (n mod 16)"

definition escape_char :: "char \<Rightarrow> string" where
  "escape_char c =
     (if c = CHR 0x22 then [CHR 0x5C, CHR 0x22]
      else if c = CHR 0x5C then [CHR 0x5C, CHR 0x5C]
      else if c = CHR 0x08 then [CHR 0x5C, CHR ''b'']
      else if c = CHR 0x0C then [CHR 0x5C, CHR ''f'']
      else if c = CHR 0x0A then [CHR 0x5C, CHR ''n'']
      else if c = CHR 0x0D then [CHR 0x5C, CHR ''r'']
      else if c = CHR 0x09 then [CHR 0x5C, CHR ''t'']
      else if (of_char c :: nat) < 32
      then [CHR 0x5C, CHR ''u'', CHR ''0'', CHR ''0'',
            hex_digit (of_char c div 16), hex_digit (of_char c)]
      else [c])"

definition quote :: "string \<Rightarrow> string" where
  "quote s = CHR 0x22 # concat (map escape_char s) @ [CHR 0x22]"

function (sequential) JSON_stringify :: "json \<Rightarrow> string"
and stringify_items :: "json list \<Rightarrow> string list"
and stringify_entries :: "(string \<times> json) list \<Rightarrow> string list"
where
  "JSON_stringify JNull = ''null''"
| "JSON_stringify (JBool b) = (if b then ''true'' else ''false'')"
| "JSON_stringify (JNum n) = show_int n"
| "JSON_stringify (JStr s) = quote s"
| "JSON_stringify (JArr xs) = ''['' @ join '','' (stringify_items xs) @ '']''"
| "JSON_stringify (JObj fs) = ''{'' @ join '','' (stringify_entries fs) @ ''}''"
| "stringify_items [] = []"
| "stringify_items (x # xs) = JSON_stringify x # stringify_items xs"
| "stringify_entries [] = []"
| "stringify_entries ((k, v) # es) = (quote k @ '':'' @ JSON_stringify v) # stringify_entries es"
  by pat_completeness auto

termination
  by (relation "measure (\<lambda>x. case x of
          Inl j \<Rightarrow> size j
        | Inr (Inl js) \<Rightarrow> size_list size js
        | Inr (Inr es) \<Rightarrow> size_list (size_prod (\<lambda>_. 0) size) es)") auto

definition is_space :: "char \<Rightarrow> bool" where
  \<comment> \<open>the ASCII white space and line terminators that \<open>trim\<close> removes\<close>
  "is_space c = (c \<in> set [CHR 0x20, CHR 0x09, CHR 0x0A, CHR 0x0B, CHR 0x0C, CHR 0x0D])"

definition trim :: "string \<Rightarrow> string" where
  "trim s = rev (dropWhile is_space (rev (dropWhile is_space s)))"

text \<open>\<open>parseJSONResponse\<close>: markdown code fences are removed before parsing.\<close>

definition strip_fences :: "string \<Rightarrow> string" where
  "strip_fences response =
     (let cleaned = trim response;
          cleaned1 = (if startsWith cleaned ''```json'' then drop 7 cleaned
                      else if startsWith cleaned ''```'' then drop 3 cleaned
                      else cleaned);
          cleaned2 = (if endsWith cleaned1 ''```'' then take (length cleaned1 - 3) cleaned1
                      else cleaned1)
      in trim cleaned2)"

definition parseJSONResponse :: "json_parser \<Rightarrow> string \<Rightarrow> json option" where
  "parseJSONResponse parse response = JSON_parse parse (strip_fences response)"

subsection \<open>\<open>selectNextTool\<close> and its fallback\<close>

record selection =
  sel_tool :: "string option"
  sel_reason :: string

text \<open>
  The test that a required parameter may be found in the context: some entry of the
  context is an object (or array) whose JSON text contains the parameter name, or
  \<open>cloudId\<close>, or \<open>id\<close>.
\<close>

definition context_has_param :: "(string \<times> json) list \<Rightarrow> string \<Rightarrow> bool" where
  "context_has_param availableContext param =
     list_ex (\<lambda>(key, data).
                if is_object data
                then (let str = JSON_stringify data
                      in str_includes str param \<or> str_includes str ''cloudId''
                         \<or> str_includes str ''id'')
                else False) availableContext"

fun fallback_no_params :: "tool_info list \<Rightarrow> selection option" where
  "fallback_no_params [] = None"
| "fallback_no_params (tool # tools) =
     (if length (required_of tool) = 0
      then Some \<lparr> sel_tool = Some (t_name tool), sel_reason = ''Fallback: no parameters required'' \<rparr>
      else fallback_no_params tools)"

fun fallback_in_context :: "(string \<times> json) list \<Rightarrow> tool_info list \<Rightarrow> selection option" where
  "fallback_in_context availableContext [] = None"
| "fallback_in_context availableContext (tool # tools) =
     (if list_all (context_has_param availableContext) (required_of tool)
      then Some \<lparr> sel_tool = Some (t_name tool),
                  sel_reason = ''Fallback: params likely available in context'' \<rparr>
      else fallback_in_context availableContext tools)"

definition fallbackToolSelection :: "tool_info list \<Rightarrow> (string \<times> json) list \<Rightarrow> selection" where
  "fallbackToolSelection unexecutedTools availableContext =
     (case fallback_no_params unexecutedTools of
        Some r \<Rightarrow> r
      | None \<Rightarrow>
          (case fallback_in_context availableContext unexecutedTools of
             Some r \<Rightarrow> r
           | None \<Rightarrow> \<lparr> sel_tool = None, sel_reason = ''No suitable tool found in fallback'' \<rparr>))"

text \<open>
  The reply of the model, once parsed. The reply type declares \<open>tool\<close> as a string or
  \<open>null\<close>; a \<open>tool\<close> that is a non-empty string is taken, anything else leads to the
  fallback.
\<close>

definition reply_selection :: "json \<Rightarrow> selection option" where
  "reply_selection obj =
     (case obj of
        JObj fs \<Rightarrow>
          (case map_of fs ''tool'' of
             Some (JStr t) \<Rightarrow>
               if t \<noteq> []
               then Some \<lparr> sel_tool = Some t,
                           sel_reason = (case map_of fs ''reason'' of Some (JStr r) \<Rightarrow> r | _ \<Rightarrow> []) \<rparr>
               else None
           | _ \<Rightarrow> None)
      | _ \<Rightarrow> None)"

definition parsed_selection :: "json \<Rightarrow> selection option" where
  "parsed_selection parsed =
     (case parsed of
        JArr [] \<Rightarrow> None
      | JArr (first # rest) \<Rightarrow> reply_selection first
      | _ \<Rightarrow> reply_selection parsed)"

text \<open>
  \<open>selectNextTool\<close> of the Gemini client. \<open>reply\<close> is what \<open>callGemini\<close> does: it throws
  (\<open>Inl\<close>, for a response that is not OK) or returns the text of the model.
\<close>

definition selectNextTool ::
  "json_parser \<Rightarrow> tool_info list \<Rightarrow> string list \<Rightarrow> (string \<times> json) list \<Rightarrow> int \<Rightarrow> int
     \<Rightarrow> string + string \<Rightarrow> string + selection" where
  "selectNextTool parse availableTools executedTools availableContext currentDepth maxDepth reply =
     (if currentDepth \<ge> maxDepth
      then Inr \<lparr> sel_tool = None, sel_reason = ''Maximum depth reached'' \<rparr>
      else
        (let unexecutedTools = filter (\<lambda>t. t_name t \<notin> set executedTools) availableTools
         in if length unexecutedTools = 0
            then Inr \<lparr> sel_tool = None, sel_reason = ''All tools have been executed'' \<rparr>
            else
              (case reply of
                 Inl err \<Rightarrow> Inl err
               | Inr response \<Rightarrow>
                   (case parseJSONResponse parse response of
                      None \<Rightarrow> Inr (fallbackToolSelection unexecutedTools availableContext)
                    | Some parsed \<Rightarrow>
                        (case parsed_selection parsed of
                           Some r \<Rightarrow> Inr r
                         | None \<Rightarrow>
                             Inr (fallbackToolSelection unexecutedTools availableContext))))))"

text \<open>Example data for the fallback.\<close>

definition tool_needs_zzz :: tool_info where
  "tool_needs_zzz = \<lparr> t_name = ''T'', t_description = None, t_required = Some [''zzz''] \<rparr>"

definition tool_no_params :: tool_info where
  "tool_no_params = \<lparr> t_name = ''L'', t_description = None, t_required = None \<rparr>"

definition context_with_id :: "(string \<times> json) list" where
  "context_with_id = [(''A'', JObj [(''id'', JStr ''1'')])]"

section \<open>Proxy interceptor (mcpProxy)\<close>

text \<open>
  JSON-RPC messages as the SDK's guards tell them apart: \<open>isJSONRPCRequest\<close> holds of a
  \<open>Request\<close>, \<open>isJSONRPCResponse(m) && "result" in m\<close> of a \<open>Response\<close>. An id is a
  number or a string, and the two are different keys of a \<open>Map\<close>.
\<close>

datatype request_id = IdNum int | IdStr string

datatype js_error = JsError (err_message: string) (err_data: json)

datatype rpc_message =
    Request request_id string "json option"
  | Response request_id json
  | ErrorResponse request_id int string js_error
  | Notification string "json option"

record pending_info =
  pr_method :: string
  pr_toolName :: "string option"

text \<open>
  The closure variables of \<open>mcpProxy\<close>, the messages handed to \<open>send\<close> of either
  transport, the number of \<open>close\<close> calls on either transport, and the two singletons the
  handlers use.
\<close>

record proxy_state =
  pendingRequests :: "(request_id \<times> pending_info) list"
  transportToClientClosed :: bool
  transportToServerClosed :: bool
  reportedServerSession :: bool
  to_server :: "rpc_message list"
  to_client :: "rpc_message list"
  server_closes :: nat
  client_closes :: nat
  px_indexer :: resource_indexer
  px_profiles :: profile_store

definition new_proxy :: "resource_indexer \<Rightarrow> profile_store \<Rightarrow> proxy_state" where
  "new_proxy ix pm =
     \<lparr> pendingRequests = [], transportToClientClosed = False, transportToServerClosed = False,
       reportedServerSession = False, to_server = [], to_client = [], server_closes = 0,
       client_closes = 0, px_indexer = ix, px_profiles = pm \<rparr>"

definition request_toolName :: "string \<Rightarrow> json option \<Rightarrow> string option" where
  "request_toolName method params =
     (if method = ''tools/call''
      then (case params of
              Some (JObj fs) \<Rightarrow> map_option js_String (map_of fs ''name'')
            | _ \<Rightarrow> None)
      else None)"

text \<open>
  \<open>transportToClient.onmessage\<close>: the pending request is recorded and the message is
  handed to the server transport.
\<close>

definition client_onmessage :: "rpc_message \<Rightarrow> proxy_state \<Rightarrow> proxy_state" where
  "client_onmessage message st =
     (let st1 = (case message of
                   Request i method params \<Rightarrow>
                     st\<lparr>pendingRequests :=
                          AList.update i \<lparr> pr_method = method,
                                           pr_toolName = request_toolName method params \<rparr>
                            (pendingRequests st)\<rparr>
                 | _ \<Rightarrow> st)
      in st1\<lparr>to_server := to_server st1 @ [message]\<rparr>)"

text \<open>
  The handler of a rejected \<open>transportToServer.send(message)\<close>, which runs some time after
  \<open>client_onmessage\<close>.
\<close>

definition server_send_failed :: "rpc_message \<Rightarrow> js_error \<Rightarrow> proxy_state \<Rightarrow> proxy_state" where
  "server_send_failed message err st =
     (case message of
        Request i method params \<Rightarrow>
          if \<not> transportToClientClosed st
          then st\<lparr>to_client := to_client st @ [ErrorResponse i (- 32001) (err_message err) err]\<rparr>
          else st
      | _ \<Rightarrow> st)"

text \<open>
  \<open>transportToServer.onmessage\<close>. The response of a pending \<open>tools/call\<close> is indexed under
  the active profile; \<open>uuid\<close>, \<open>now\<close> and \<open>writable\<close> are what the indexer draws from the
  platform during the call.
\<close>

definition server_onmessage ::
  "json_parser \<Rightarrow> (nat \<Rightarrow> string) \<Rightarrow> int \<Rightarrow> bool \<Rightarrow> rpc_message \<Rightarrow> proxy_state \<Rightarrow> proxy_state"
  where
  "server_onmessage parse uuid now writable message st =
     (let st1 = st\<lparr>reportedServerSession := True\<rparr>;
          st2 = (case message of
                   Response i result \<Rightarrow>
                     (case map_of (pendingRequests st1) i of
                        None \<Rightarrow> st1
                      | Some requestInfo \<Rightarrow>
                          (let st' = st1\<lparr>pendingRequests := AList.delete i (pendingRequests st1)\<rparr>
                           in case pr_toolName requestInfo of
                                Some toolName \<Rightarrow>
                                  if pr_method requestInfo = ''tools/call'' \<and> toolName \<noteq> []
                                  then st'\<lparr>px_indexer :=
                                         snd (indexResponse parse
                                                \<lparr> c_uuid = uuid, c_now = now, c_writable = writable,
                                                  c_profiles = px_profiles st',
                                                  c_userProfileId = activeProfileId (px_profiles st'),
                                                  c_toolName = toolName, c_response = result \<rparr>
                                                (px_indexer st'))\<rparr>
                                  else st'
                              | None \<Rightarrow> st'))
                 | _ \<Rightarrow> st1)
      in st2\<lparr>to_client := to_client st2 @ [message]\<rparr>)"

definition client_onclose :: "proxy_state \<Rightarrow> proxy_state" where
  "client_onclose st =
     (if transportToServerClosed st then st
      else st\<lparr>transportToClientClosed := True, pendingRequests := [],
              server_closes := Suc (server_closes st)\<rparr>)"

definition server_onclose :: "proxy_state \<Rightarrow> proxy_state" where
  "server_onclose st =
     (if transportToClientClosed st then st
      else st\<lparr>transportToServerClosed := True, pendingRequests := [],
              client_closes := Suc (client_closes st)\<rparr>)"

text \<open>Scenario S6: request 42 and the error that the server transport rejects with.\<close>

definition request_42 :: rpc_message where
  "request_42 = Request (IdNum 42) ''tools/call'' (Some (JObj [(''name'', JStr ''listThings'')]))"

definition econnreset :: js_error where
  "econnreset = JsError ''ECONNRESET'' (JObj [(''code'', JStr ''ECONNRESET'')])"

section \<open>Agent orchestrator\<close>

datatype agent_status = AgentIdle | AgentRunning | AgentPaused | AgentCompleted | AgentError

record flagged_tool =
  f_toolName :: string
  f_missingParams :: "string list"
  f_reason :: string
  f_nodeId :: string

record execution_step =
  s_toolName :: string
  s_nodeId :: string
  s_parameters :: json
  s_parameterSources :: "(string \<times> string) list"
  s_status :: node_status
  s_result :: "json option"
  s_error :: "string option"
  s_timestamp :: int
  s_depth :: int

text \<open>An event is its data and its time; the data determines the \<open>type\<close> of the event.\<close>

datatype event_data =
    StatusChange agent_status
  | AnalysisComplete nat json
  | ToolStart string json int
  | ToolComplete string json int
  | ToolFailed string string
  | ToolSkippedMissing string "string list"
  | ToolSkippedReason string string
  | AgentComplete nat nat int
  | ErrorEvent string

datatype event_type =
    Status_change | Analysis_complete | Tool_start | Tool_complete | Tool_failed
  | Tool_skipped | Agent_complete | Error_event

fun type_of_event :: "event_data \<Rightarrow> event_type" where
  "type_of_event (StatusChange s) = Status_change"
| "type_of_event (AnalysisComplete n a) = Analysis_complete"
| "type_of_event (ToolStart t p d) = Tool_start"
| "type_of_event (ToolComplete t r d) = Tool_complete"
| "type_of_event (ToolFailed t e) = Tool_failed"
| "type_of_event (ToolSkippedMissing t m) = Tool_skipped"
| "type_of_event (ToolSkippedReason t r) = Tool_skipped"
| "type_of_event (AgentComplete n f d) = Agent_complete"
| "type_of_event (ErrorEvent e) = Error_event"

record agent_event =
  ev_data :: event_data
  ev_timestamp :: int

record agent_state =
  a_status :: agent_status
  a_toolsDiscovered :: "tool_info list"
  a_dependencyAnalysis :: json
  a_executionHistory :: "execution_step list"
  a_currentStep :: int
  a_currentDepth :: int
  a_maxDepth :: int
  a_flaggedTools :: "flagged_tool list"
  a_resourceGraph :: "resource_node list \<times> resource_edge list"
  a_startTime :: "int option"
  a_endTime :: "int option"
  a_error :: "string option"

definition createInitialState :: agent_state where
  "createInitialState =
     \<lparr> a_status = AgentIdle, a_toolsDiscovered = [], a_dependencyAnalysis = JArr [],
       a_executionHistory = [], a_currentStep = 0, a_currentDepth = 0, a_maxDepth = 10,
       a_flaggedTools = [], a_resourceGraph = ([], []), a_startTime = None, a_endTime = None,
       a_error = None \<rparr>"

text \<open>
  The orchestrator: whether \<open>configure\<close> has set the client and the two callbacks, the
  state, the graph, the abort controller (\<open>None\<close>: \<open>null\<close>; \<open>Some b\<close>: a controller whose
  signal has \<open>aborted = b\<close>), the events published so far, oldest first, and the calls made
  through \<open>toolCallFn\<close> so far.
\<close>

record orchestrator =
  o_configured :: bool
  o_state :: agent_state
  o_graph :: resource_graph
  o_abort :: "bool option"
  o_events :: "agent_event list"
  o_calls :: "(string \<times> json) list"

definition new_orchestrator :: orchestrator where
  "new_orchestrator =
     \<lparr> o_configured = False, o_state = createInitialState, o_graph = new_graph,
       o_abort = None, o_events = [], o_calls = [] \<rparr>"

definition emitEvent :: "int \<Rightarrow> event_data \<Rightarrow> orchestrator \<Rightarrow> orchestrator" where
  "emitEvent now d orch = orch\<lparr>o_events := o_events orch @ [\<lparr> ev_data = d, ev_timestamp = now \<rparr>]\<rparr>"

definition configure :: "int option \<Rightarrow> orchestrator \<Rightarrow> orchestrator" where
  \<comment> \<open>\<open>if (config.maxDepth) this.state.maxDepth = config.maxDepth\<close>\<close>
  "configure maxDepth orch =
     orch\<lparr>o_configured := True,
          o_state := (case maxDepth of
                        Some m \<Rightarrow> if m \<noteq> 0 then (o_state orch)\<lparr>a_maxDepth := m\<rparr> else o_state orch
                      | None \<Rightarrow> o_state orch)\<rparr>"

definition pause :: "int \<Rightarrow> orchestrator \<Rightarrow> orchestrator" where
  "pause now orch =
     (if a_status (o_state orch) = AgentRunning
      then emitEvent now (StatusChange AgentPaused)
             (orch\<lparr>o_state := (o_state orch)\<lparr>a_status := AgentPaused\<rparr>\<rparr>)
      else orch)"

definition stop :: "int \<Rightarrow> orchestrator \<Rightarrow> orchestrator" where
  "stop now orch =
     emitEvent now (StatusChange AgentIdle)
       (orch\<lparr>o_abort := map_option (\<lambda>aborted. True) (o_abort orch),
             o_state := (o_state orch)\<lparr>a_status := AgentIdle, a_endTime := Some now\<rparr>\<rparr>)"

text \<open>
  The loop of \<open>runExecutionLoop\<close> is suspended while it awaits the model or the tool. The
  calls of \<open>pause()\<close> and \<open>stop()\<close> that arrive during one such wait are a list of
  \<open>control\<close>s, each with its clock reading; they run before the loop goes on.
\<close>

datatype control = CallPause int | CallStop int

fun apply_control :: "control \<Rightarrow> orchestrator \<Rightarrow> orchestrator" where
  "apply_control (CallPause now) orch = pause now orch"
| "apply_control (CallStop now) orch = stop now orch"

definition run_controls :: "control list \<Rightarrow> orchestrator \<Rightarrow> orchestrator" where
  "run_controls cs orch = fold apply_control cs orch"

text \<open>
  What \<open>extractParameters\<close> resolves to; every field may be missing in the reply of the
  model, and the reply may be \<open>null\<close>.
\<close>

record extracted_params =
  x_params :: "json option"
  x_sources :: "(string \<times> string) list option"
  x_confidence :: "real option"
  x_missingParams :: "string list option"

definition js_truthy :: "json \<Rightarrow> bool" where
  "js_truthy v =
     (case v of JNull \<Rightarrow> False | JBool b \<Rightarrow> b | JNum n \<Rightarrow> n \<noteq> 0 | JStr s \<Rightarrow> s \<noteq> []
      | _ \<Rightarrow> True)"

definition missingParams_of :: "extracted_params option \<Rightarrow> string list" where
  \<comment> \<open>\<open>extraction?.missingParams || []\<close>\<close>
  "missingParams_of extraction =
     (case extraction of Some x \<Rightarrow> (case x_missingParams x of Some m \<Rightarrow> m | None \<Rightarrow> [])
      | None \<Rightarrow> [])"

definition params_of :: "extracted_params option \<Rightarrow> json" where
  \<comment> \<open>\<open>extraction?.params || {}\<close>\<close>
  "params_of extraction =
     (case extraction of
        Some x \<Rightarrow> (case x_params x of Some p \<Rightarrow> if js_truthy p then p else JObj []
                    | None \<Rightarrow> JObj [])
      | None \<Rightarrow> JObj [])"

definition sources_of :: "extracted_params option \<Rightarrow> (string \<times> string) list" where
  \<comment> \<open>\<open>extraction?.sources || {}\<close>\<close>
  "sources_of extraction =
     (case extraction of Some x \<Rightarrow> (case x_sources x of Some s \<Rightarrow> s | None \<Rightarrow> [])
      | None \<Rightarrow> [])"

definition confidence_of :: "extracted_params option \<Rightarrow> real" where
  \<comment> \<open>\<open>extraction?.confidence ?? 0\<close>\<close>
  "confidence_of extraction =
     (case extraction of Some x \<Rightarrow> (case x_confidence x of Some c \<Rightarrow> c | None \<Rightarrow> 0)
      | None \<Rightarrow> 0)"

text \<open>
  The locals of \<open>runExecutionLoop\<close> next to the orchestrator: \<open>executedTools\<close> and the map
  \<open>toolDepths\<close>.
\<close>

record loop_state =
  l_orch :: orchestrator
  l_executedTools :: "string list"
  l_toolDepths :: "(string \<times> int) list"

text \<open>
  The loop over \<open>Object.entries(extractedSources)\<close>; its state is \<open>maxSourceDepth\<close> and
  \<open>paramSources\<close>. \<open>String(source).split(".")[0]\<close> is the part of the label before the
  first dot.
\<close>

definition source_tool :: "string \<Rightarrow> string" where
  "source_tool source = takeWhile (\<lambda>c. c \<noteq> CHR ''.'') source"

definition source_depth :: "(string \<times> int) list \<Rightarrow> string \<Rightarrow> int" where
  \<comment> \<open>\<open>toolDepths.get(sourceTool) || 0\<close>\<close>
  "source_depth toolDepths sourceTool =
     (case map_of toolDepths sourceTool of Some d \<Rightarrow> d | None \<Rightarrow> 0)"

fun source_loop ::
  "resource_graph \<Rightarrow> (string \<times> int) list \<Rightarrow> (string \<times> string) list
     \<Rightarrow> int \<times> (string \<times> string) list \<Rightarrow> int \<times> (string \<times> string) list" where
  "source_loop g toolDepths [] acc = acc"
| "source_loop g toolDepths ((param, source) # rest) (maxSourceDepth, paramSources) =
     source_loop g toolDepths rest
       (let sourceTool = source_tool source;
            paramSources' =
              (case getToolNodeId sourceTool g of
                 Some sourceNodeId \<Rightarrow>
                   if sourceNodeId \<noteq> [] then AList.update param sourceNodeId paramSources
                   else paramSources
               | None \<Rightarrow> paramSources);
            sourceDepth = source_depth toolDepths sourceTool
        in (max maxSourceDepth sourceDepth, paramSources'))"

definition flag_tool ::
  "int \<Rightarrow> flagged_tool \<Rightarrow> string \<Rightarrow> event_data \<Rightarrow> orchestrator \<Rightarrow> orchestrator" where
  \<comment> \<open>push onto \<open>flaggedTools\<close>, \<open>markToolSkipped\<close>, emit \<open>tool_skipped\<close>\<close>
  "flag_tool now flagged skipReason ev orch =
     emitEvent now ev
       (orch\<lparr>o_state := (o_state orch)\<lparr>a_flaggedTools := a_flaggedTools (o_state orch) @ [flagged]\<rparr>,
             o_graph := markToolSkipped (f_nodeId flagged) skipReason (f_missingParams flagged)
                          (o_graph orch)\<rparr>)"

text \<open>
  A tool call that has been issued and is awaited: what the rest of the iteration uses
  once it returns. \<open>pc_step\<close> is the position of the step in the history.
\<close>

record pending_call =
  pc_toolName :: string
  pc_nodeId :: string
  pc_params :: json
  pc_paramSources :: "(string \<times> string) list"
  pc_depth :: int
  pc_step :: nat

text \<open>
  From the return of \<open>extractParameters\<close> to the next wait: either the tool is flagged and
  the iteration ends (\<open>Inl\<close>), or the tool call is issued (\<open>Inr\<close>).
\<close>

definition extraction_stage ::
  "int \<Rightarrow> tool_info \<Rightarrow> string \<Rightarrow> extracted_params option \<Rightarrow> loop_state
     \<Rightarrow> loop_state + pending_call \<times> loop_state" where
  "extraction_stage now toolInfo nodeId extraction ls =
     (let orch = l_orch ls;
          missingParams = missingParams_of extraction;
          extractedParams = params_of extraction;
          extractedSources = sources_of extraction;
          confidence = confidence_of extraction
      in if length missingParams > 0 \<and> confidence < 0.5
         then Inl (ls\<lparr>l_orch :=
                 flag_tool now
                   \<lparr> f_toolName = t_name toolInfo, f_missingParams = missingParams,
                     f_reason = ''Could not resolve required parameters from available context'',
                     f_nodeId = nodeId \<rparr>
                   ''Missing parameters''
                   (ToolSkippedMissing (t_name toolInfo) missingParams) orch\<rparr>)
         else
           (let (maxSourceDepth, paramSources) =
                  source_loop (o_graph orch) (l_toolDepths ls) extractedSources (0, []);
                toolDepth = maxSourceDepth + 1;
                ls1 = ls\<lparr>l_toolDepths := AList.update (t_name toolInfo) toolDepth (l_toolDepths ls)\<rparr>
            in if toolDepth > a_maxDepth (o_state orch)
               then Inl (ls1\<lparr>l_orch :=
                       flag_tool now
                         \<lparr> f_toolName = t_name toolInfo, f_missingParams = [],
                           f_reason = ''Exceeds max depth ('' @ show_int toolDepth @ '' > ''
                                        @ show_int (a_maxDepth (o_state orch)) @ '')'',
                           f_nodeId = nodeId \<rparr>
                         ''Exceeds max depth''
                         (ToolSkippedReason (t_name toolInfo) ''Exceeds max depth'') orch\<rparr>)
               else
                 (let st = o_state orch;
                      step = \<lparr> s_toolName = t_name toolInfo, s_nodeId = nodeId,
                               s_parameters = extractedParams, s_parameterSources = paramSources,
                               s_status = Running, s_result = None, s_error = None,
                               s_timestamp = now, s_depth = toolDepth \<rparr>;
                      st1 = st\<lparr>a_currentDepth := max (a_currentDepth st) toolDepth,
                              a_executionHistory := a_executionHistory st @ [step],
                              a_currentStep := int (length (a_executionHistory st))\<rparr>;
                      orch1 = emitEvent now (ToolStart (t_name toolInfo) extractedParams toolDepth)
                                (orch\<lparr>o_state := st1,
                                      o_graph := markToolRunning nodeId extractedParams (o_graph orch)\<rparr>);
                      orch2 = orch1\<lparr>o_calls := o_calls orch1 @ [(t_name toolInfo, extractedParams)]\<rparr>
                  in Inr (\<lparr> pc_toolName = t_name toolInfo, pc_nodeId = nodeId,
                            pc_params = extractedParams, pc_paramSources = paramSources,
                            pc_depth = toolDepth,
                            pc_step = length (a_executionHistory st) \<rparr>,
                          ls1\<lparr>l_orch := orch2\<rparr>))))"

text \<open>
  From the return of the tool call to the end of the iteration. The step that was pushed
  onto the history is the object that is updated here.
\<close>

definition update_step :: "nat \<Rightarrow> (execution_step \<Rightarrow> execution_step) \<Rightarrow> agent_state \<Rightarrow> agent_state"
  where
  "update_step i f st =
     (if i < length (a_executionHistory st)
      then st\<lparr>a_executionHistory := (a_executionHistory st)[i := f (a_executionHistory st ! i)]\<rparr>
      else st)"

definition call_stage ::
  "json_parser \<Rightarrow> int \<Rightarrow> pending_call \<Rightarrow> string + json \<Rightarrow> loop_state \<Rightarrow> loop_state" where
  "call_stage parse now pc outcome ls =
     (let orch = l_orch ls;
          orch1 =
            (case outcome of
               Inr result \<Rightarrow>
                 emitEvent now (ToolComplete (pc_toolName pc) result (pc_depth pc))
                   (orch\<lparr>o_state := update_step (pc_step pc)
                                       (\<lambda>s. s\<lparr>s_status := Completed, s_result := Some result\<rparr>)
                                       (o_state orch),
                         o_graph := recordToolExecution parse now (pc_nodeId pc) result
                                       (pc_paramSources pc) (o_graph orch)\<rparr>)
             | Inl message \<Rightarrow>
                 emitEvent now (ToolFailed (pc_toolName pc) message)
                   (orch\<lparr>o_state := update_step (pc_step pc)
                                       (\<lambda>s. s\<lparr>s_status := Failed, s_error := Some message\<rparr>)
                                       (o_state orch),
                         o_graph := markToolFailed (pc_nodeId pc) message (o_graph orch)\<rparr>))
      in ls\<lparr>l_orch := orch1\<lparr>o_state := (o_state orch1)
                 \<lparr>a_resourceGraph := toVisualizationFormat (o_graph orch1)\<rparr>\<rparr>\<rparr>)"

text \<open>
  What the outside world does during one iteration: the result of \<open>selectNextTool\<close>, of
  \<open>extractParameters\<close> and of the tool call (\<open>Inl\<close>: the promise is rejected with that
  message), the controls that arrive during each of the three waits, and the clock when
  the loop goes on after each wait. The context handed to the model only influences
  these results.
\<close>

record iteration_io =
  i_select :: "string + selection"
  i_during_select :: "control list"
  i_now_select :: int
  i_extract :: "string + extracted_params option"
  i_during_extract :: "control list"
  i_now_extract :: int
  i_call :: "string + json"
  i_during_call :: "control list"
  i_now_call :: int

datatype iteration_result = Continue loop_state | Break loop_state | Throw string loop_state

definition with_controls :: "control list \<Rightarrow> loop_state \<Rightarrow> loop_state" where
  "with_controls cs ls = ls\<lparr>l_orch := run_controls cs (l_orch ls)\<rparr>"

text \<open>
  From the top of the loop body to the call of \<open>extractParameters\<close>: the iteration ends
  (\<open>Inl\<close>) or a pending node has been added for the tool (\<open>Inr\<close>, with the node id).
\<close>

definition select_stage ::
  "tool_info list \<Rightarrow> iteration_io \<Rightarrow> loop_state
     \<Rightarrow> iteration_result + tool_info \<times> string \<times> loop_state" where
  "select_stage tools io ls =
     (let ls1 = with_controls (i_during_select io) ls
      in case i_select io of
           Inl err \<Rightarrow> Inl (Throw err ls1)
         | Inr nextTool \<Rightarrow>
             (case sel_tool nextTool of
                None \<Rightarrow> Inl (Break ls1)
              | Some name \<Rightarrow>
                  if name = [] then Inl (Break ls1)
                  else if name \<in> set (l_executedTools ls1) then Inl (Continue ls1)
                  else
                    (let ls2 = ls1\<lparr>l_executedTools := l_executedTools ls1 @ [name]\<rparr>
                     in case find (\<lambda>t. t_name t = name) tools of
                          None \<Rightarrow> Inl (Continue ls2)
                        | Some toolInfo \<Rightarrow>
                            (let (nodeId, g) = addPendingTool (i_now_select io) (t_name toolInfo)
                                                 (o_graph (l_orch ls2))
                             in Inr (toolInfo, nodeId,
                                     ls2\<lparr>l_orch := (l_orch ls2)\<lparr>o_graph := g\<rparr>\<rparr>)))))"

definition iteration ::
  "json_parser \<Rightarrow> tool_info list \<Rightarrow> iteration_io \<Rightarrow> loop_state \<Rightarrow> iteration_result" where
  "iteration parse tools io ls =
     (case select_stage tools io ls of
        Inl r \<Rightarrow> r
      | Inr (toolInfo, nodeId, ls3) \<Rightarrow>
          (let ls4 = with_controls (i_during_extract io) ls3
           in case i_extract io of
                Inl err \<Rightarrow> Throw err ls4
              | Inr extraction \<Rightarrow>
                  (case extraction_stage (i_now_extract io) toolInfo nodeId extraction ls4 of
                     Inl ls5 \<Rightarrow> Continue ls5
                   | Inr (pc, ls5) \<Rightarrow>
                       Continue (call_stage parse (i_now_call io) pc (i_call io)
                                   (with_controls (i_during_call io) ls5)))))"

text \<open>
  The \<open>while\<close> loop. The list holds what the outside world does in the iterations to
  come; when it is used up and the loop would still go on, the result is \<open>None\<close>.
  Otherwise the loop ends normally (\<open>Inr\<close>) or by an exception (\<open>Inl\<close>).
\<close>

fun execution_loop ::
  "json_parser \<Rightarrow> tool_info list \<Rightarrow> iteration_io list \<Rightarrow> loop_state
     \<Rightarrow> (string \<times> loop_state + loop_state) option" where
  "execution_loop parse tools [] ls =
     (if a_status (o_state (l_orch ls)) \<noteq> AgentRunning then Some (Inr ls)
      else if o_abort (l_orch ls) = Some True then Some (Inr ls)
      else None)"
| "execution_loop parse tools (io # ios) ls =
     (if a_status (o_state (l_orch ls)) \<noteq> AgentRunning then Some (Inr ls)
      else if o_abort (l_orch ls) = Some True then Some (Inr ls)
      else (case iteration parse tools io ls of
              Continue ls' \<Rightarrow> execution_loop parse tools ios ls'
            | Break ls' \<Rightarrow> Some (Inr ls')
            | Throw err ls' \<Rightarrow> Some (Inl (err, ls'))))"

text \<open>
  \<open>runExecutionLoop\<close>: discovery, analysis, the loop, and the block after the loop.
\<close>

record run_io =
  r_listTools :: "string + tool_info list"
  r_during_listTools :: "control list"
  r_analysis :: "string + json"
  r_during_analysis :: "control list"
  r_now_analysis :: int
  r_iterations :: "iteration_io list"
  r_now_end :: int

definition execution_complete :: "int \<Rightarrow> loop_state \<Rightarrow> orchestrator" where
  "execution_complete now ls =
     (let orch = l_orch ls;
          st = (o_state orch)\<lparr>a_status := AgentCompleted, a_endTime := Some now,
                              a_resourceGraph := toVisualizationFormat (o_graph orch)\<rparr>
      in emitEvent now
           (AgentComplete (length (l_executedTools ls)) (length (a_flaggedTools st))
              (now - (case a_startTime st of Some t \<Rightarrow> t | None \<Rightarrow> 0)))
           (orch\<lparr>o_state := st\<rparr>))"

definition runExecutionLoop ::
  "json_parser \<Rightarrow> run_io \<Rightarrow> orchestrator \<Rightarrow> (string \<times> orchestrator + orchestrator) option" where
  "runExecutionLoop parse rio orch =
     (let orch1 = run_controls (r_during_listTools rio) orch
      in case r_listTools rio of
           Inl err \<Rightarrow> Some (Inl (err, orch1))
         | Inr tools \<Rightarrow>
             (let orch2 = run_controls (r_during_analysis rio)
                            (orch1\<lparr>o_state := (o_state orch1)\<lparr>a_toolsDiscovered := tools\<rparr>\<rparr>)
              in case r_analysis rio of
                   Inl err \<Rightarrow> Some (Inl (err, orch2))
                 | Inr analysis \<Rightarrow>
                     (let orch3 = emitEvent (r_now_analysis rio)
                                    (AnalysisComplete (length tools) analysis)
                                    (orch2\<lparr>o_state := (o_state orch2)
                                              \<lparr>a_dependencyAnalysis := analysis\<rparr>\<rparr>)
                      in case execution_loop parse tools (r_iterations rio)
                                \<lparr> l_orch = orch3, l_executedTools = [], l_toolDepths = [] \<rparr> of
                           None \<Rightarrow> None
                         | Some (Inl (err, ls)) \<Rightarrow> Some (Inl (err, l_orch ls))
                         | Some (Inr ls) \<Rightarrow> Some (Inr (execution_complete (r_now_end rio) ls)))))"

text \<open>
  \<open>start()\<close>: the two checks throw (\<open>Inl\<close>); otherwise the state is reset, the loop runs
  and an exception of the loop becomes the status \<open>error\<close>.
\<close>

definition start ::
  "json_parser \<Rightarrow> int \<Rightarrow> int \<Rightarrow> run_io \<Rightarrow> orchestrator \<Rightarrow> (string + orchestrator) option" where
  "start parse now now_error rio orch =
     (if \<not> o_configured orch then Some (Inl ''Agent not configured. Call configure() first.'')
      else if a_status (o_state orch) = AgentRunning then Some (Inl ''Agent is already running'')
      else
        (let orch1 = emitEvent now (StatusChange AgentRunning)
                       (orch\<lparr>o_abort := Some False,
                             o_state := createInitialState\<lparr>a_status := AgentRunning,
                                                           a_startTime := Some now\<rparr>,
                             o_graph := clear (o_graph orch)\<rparr>)
         in case runExecutionLoop parse rio orch1 of
              None \<Rightarrow> None
            | Some (Inr orch2) \<Rightarrow> Some (Inr orch2)
            | Some (Inl (err, orch2)) \<Rightarrow>
                Some (Inr (emitEvent now_error (ErrorEvent err)
                             (orch2\<lparr>o_state := (o_state orch2)\<lparr>a_status := AgentError,
                                                                a_error := Some err\<rparr>\<rparr>)))))"

definition resume ::
  "json_parser \<Rightarrow> int \<Rightarrow> run_io \<Rightarrow> orchestrator \<Rightarrow> (string \<times> orchestrator + orchestrator) option"
  where
  "resume parse now rio orch =
     (if a_status (o_state orch) = AgentPaused
      then runExecutionLoop parse rio
             (emitEvent now (StatusChange AgentRunning)
                (orch\<lparr>o_state := (o_state orch)\<lparr>a_status := AgentRunning\<rparr>\<rparr>))
      else Some (Inr orch))"

subsection \<open>Notions the orchestrator's properties are stated with\<close>

text \<open>
  The depth of a tool as the specification gives it: one plus the greatest recorded depth
  of the source tools of its parameters, where an unknown tool counts 0 and the maximum
  of nothing is 0.
\<close>

definition spec_depth :: "(string \<times> int) list \<Rightarrow> (string \<times> string) list \<Rightarrow> int" where
  "spec_depth toolDepths sources =
     1 + Max (insert 0 ((\<lambda>(param, source). source_depth toolDepths (source_tool source))
                          ` set sources))"

text \<open>The invariant of the loop: a depth is recorded for executed tools only.\<close>

definition depths_recorded :: "loop_state \<Rightarrow> bool" where
  "depths_recorded ls = (fst ` set (l_toolDepths ls) \<subseteq> set (l_executedTools ls))"

text \<open>
  What the selection of an iteration owes to the client it comes from. The loop calls
  \<open>selectNextTool\<close> with the \<open>currentDepth\<close> and the \<open>maxDepth\<close> of the state, and
  \<open>selectNextTool\<close> of \<open>GeminiClient\<close> and of \<open>ClaudeClient\<close> both begin with \<open>if
  (currentDepth >= maxDepth) return { tool: null, ... }\<close>: at the depth bound the call
  resolves, to a selection of no tool.
\<close>

definition client_selection :: "loop_state \<Rightarrow> iteration_io \<Rightarrow> bool" where
  "client_selection ls io =
     (a_currentDepth (o_state (l_orch ls)) \<ge> a_maxDepth (o_state (l_orch ls)) \<longrightarrow>
        (case i_select io of Inr nextTool \<Rightarrow> sel_tool nextTool = None | Inl err \<Rightarrow> False))"

text \<open>
  The second invariant of the loop: \<open>currentDepth\<close> is not negative and bounds every
  recorded depth.
\<close>

definition depths_bounded :: "loop_state \<Rightarrow> bool" where
  "depths_bounded ls =
     (0 \<le> a_currentDepth (o_state (l_orch ls))
      \<and> (\<forall>(name, d) \<in> set (l_toolDepths ls). d \<le> a_currentDepth (o_state (l_orch ls))))"

subsection \<open>Example runs\<close>

fun result_state :: "iteration_result \<Rightarrow> loop_state" where
  "result_state (Continue ls) = ls"
| "result_state (Break ls) = ls"
| "result_state (Throw err ls) = ls"

definition tool_named :: "string \<Rightarrow> string list \<Rightarrow> tool_info" where
  "tool_named name required =
     \<lparr> t_name = name, t_description = None, t_required = Some required \<rparr>"

text \<open>A running orchestrator with the given depth bound and nothing done yet.\<close>

definition running_orch :: "int \<Rightarrow> orchestrator" where
  "running_orch maxDepth =
     \<lparr> o_configured = True,
       o_state = createInitialState\<lparr>a_status := AgentRunning, a_startTime := Some 0,
                                     a_maxDepth := maxDepth\<rparr>,
       o_graph = new_graph, o_abort = Some False, o_events = [], o_calls = [] \<rparr>"

text \<open>
  An iteration in which the model selects \<open>name\<close>, the extraction is \<open>x\<close>, the tool call
  ends as \<open>outcome\<close>, and the controls \<open>cs\<close> arrive while the selection is awaited.
\<close>

definition simple_io ::
  "control list \<Rightarrow> string \<Rightarrow> extracted_params \<Rightarrow> string + json \<Rightarrow> iteration_io" where
  "simple_io cs name x outcome =
     \<lparr> i_select = Inr \<lparr> sel_tool = Some name, sel_reason = ''next'' \<rparr>,
       i_during_select = cs, i_now_select = 100,
       i_extract = Inr (Some x), i_during_extract = [], i_now_extract = 200,
       i_call = outcome, i_during_call = [], i_now_call = 300 \<rparr>"

definition extraction_of ::
  "(string \<times> string) list \<Rightarrow> real \<Rightarrow> string list \<Rightarrow> extracted_params" where
  "extraction_of sources confidence missing =
     \<lparr> x_params = Some (JObj []), x_sources = Some sources, x_confidence = Some confidence,
       x_missingParams = Some missing \<rparr>"

definition loop_start :: "int \<Rightarrow> loop_state" where
  "loop_start maxDepth =
     \<lparr> l_orch = running_orch maxDepth, l_executedTools = [], l_toolDepths = [] \<rparr>"

text \<open>Scenario S3 after \<open>A\<close> and \<open>B\<close> have run, with the depth bound 2.\<close>

definition s3_state :: loop_state where
  "s3_state =
     \<lparr> l_orch = running_orch 2, l_executedTools = [''A'', ''B''],
       l_toolDepths = [(''A'', 1), (''B'', 2)] \<rparr>"

text \<open>
  Scenario S4 in the first iteration of a run: the tool \<open>X\<close> requires \<open>x\<close>, the selection
  is that of the Gemini client at depth 0 of 10, nothing executed and the context empty,
  where the model replies \<open>select_X_text\<close>; the extraction has the given confidence and
  misses \<open>x\<close>.
\<close>

definition s4_io :: "real \<Rightarrow> iteration_io" where
  "s4_io confidence =
     (simple_io [] [] (extraction_of [] confidence [''x'']) (Inr JNull))
       \<lparr>i_select := selectNextTool parse_demo [tool_named ''X'' [''x'']] [] [] 0 10
                      (Inr select_X_text)\<rparr>"

text \<open>
  Scenario S5: tools \<open>A\<close> and \<open>B\<close>; \<open>A\<close> runs; \<open>stop()\<close> is called at time 400 while the
  second selection is awaited, and the reply of the model, which selects \<open>B\<close>, arrives
  after it, at time 500.
\<close>

definition s5_run :: run_io where
  "s5_run =
     \<lparr> r_listTools = Inr [tool_named ''A'' [], tool_named ''B'' [''id'']],
       r_during_listTools = [], r_analysis = Inr (JArr []), r_during_analysis = [],
       r_now_analysis = 10,
       r_iterations =
         [simple_io [] ''A'' (extraction_of [] 1 []) (Inr (JObj [(''id'', JStr ''a1'')])),
          (simple_io [CallStop 400] ''B'' (extraction_of [(''id'', ''A.id'')] 1 []) (Inr JNull))
            \<lparr>i_now_select := 500, i_now_extract := 600, i_now_call := 700\<rparr>],
       r_now_end = 1000 \<rparr>"

chapter \<open>Properties\<close>

section \<open>Properties of the profile store\<close>

lemma findIndex_Some:
  "findIndex P xs = Some k \<Longrightarrow> k < length xs \<and> P (xs ! k) \<and> find P xs = Some (xs ! k)"
proof (induction xs arbitrary: k)
  case Nil
  then show ?case by simp
next
  case (Cons x xs)
  show ?case
  proof (cases "P x")
    case True
    with Cons.prems show ?thesis by simp
  next
    case False
    with Cons.prems obtain j where j: "findIndex P xs = Some j" "k = Suc j"
      by auto
    from Cons.IH [OF j(1)] False j(2) show ?thesis by simp
  qed
qed

lemma findIndex_None: "findIndex P xs = None \<longleftrightarrow> find P xs = None"
  by (induction xs) auto

text \<open>
  C10. Updating a stored profile: when the store resolves the id to the profile \<open>p\<close>, the
  call returns a profile with the id and the creation time of \<open>p\<close>, whatever the input
  carries in its \<open>id\<close> and \<open>createdAt\<close> fields, and with \<open>updatedAt\<close> set to the clock;
  the returned profile takes the place of \<open>p\<close> in the list and every other position, as
  well as the active profile id, is as before. When the id is not in the store the call
  throws and the store is as before.
\<close>

theorem updateProfile_frame:
  "(getProfile st i = Some p \<longrightarrow>
      (\<exists>k u. k < length (profiles st) \<and> profiles st ! k = p
         \<and> fst (updateProfile now writable i d st) = Inr u
         \<and> p_id u = p_id p \<and> p_createdAt u = p_createdAt p \<and> p_updatedAt u = now
         \<and> profiles (snd (updateProfile now writable i d st)) = (profiles st)[k := u]
         \<and> (\<forall>j. j < length (profiles st) \<and> j \<noteq> k \<longrightarrow>
               profiles (snd (updateProfile now writable i d st)) ! j = profiles st ! j)
         \<and> activeProfileId (snd (updateProfile now writable i d st)) = activeProfileId st))
   \<and> (getProfile st i = None \<longrightarrow>
        updateProfile now writable i d st = (Inl (ProfileNotFound i), st))"
proof (intro conjI impI)
  assume found: "getProfile st i = Some p"
  then obtain k where k: "findIndex (\<lambda>q. p_id q = i) (profiles st) = Some k"
    by (cases "findIndex (\<lambda>q. p_id q = i) (profiles st)")
       (auto simp: getProfile_def findIndex_None)
  from findIndex_Some [OF k] found
  have kp: "k < length (profiles st)" "profiles st ! k = p"
    by (auto simp: getProfile_def)
  define u where "u = (spread_profile p d)
      \<lparr> p_id := p_id p, p_createdAt := p_createdAt p, p_updatedAt := now \<rparr>"
  have res: "updateProfile now writable i d st =
      (Inr u, saveToFile writable (st\<lparr>profiles := (profiles st)[k := u]\<rparr>))"
    using k kp by (simp add: updateProfile_def u_def Let_def)
  have "k < length (profiles st) \<and> profiles st ! k = p
         \<and> fst (updateProfile now writable i d st) = Inr u
         \<and> p_id u = p_id p \<and> p_createdAt u = p_createdAt p \<and> p_updatedAt u = now
         \<and> profiles (snd (updateProfile now writable i d st)) = (profiles st)[k := u]
         \<and> (\<forall>j. j < length (profiles st) \<and> j \<noteq> k \<longrightarrow>
               profiles (snd (updateProfile now writable i d st)) ! j = profiles st ! j)
         \<and> activeProfileId (snd (updateProfile now writable i d st)) = activeProfileId st"
    using kp by (simp add: res saveToFile_def u_def)
  then show "\<exists>k u. k < length (profiles st) \<and> profiles st ! k = p
         \<and> fst (updateProfile now writable i d st) = Inr u
         \<and> p_id u = p_id p \<and> p_createdAt u = p_createdAt p \<and> p_updatedAt u = now
         \<and> profiles (snd (updateProfile now writable i d st)) = (profiles st)[k := u]
         \<and> (\<forall>j. j < length (profiles st) \<and> j \<noteq> k \<longrightarrow>
               profiles (snd (updateProfile now writable i d st)) ! j = profiles st ! j)
         \<and> activeProfileId (snd (updateProfile now writable i d st)) = activeProfileId st"
    by blast
next
  assume "getProfile st i = None"
  then have "findIndex (\<lambda>q. p_id q = i) (profiles st) = None"
    by (simp add: getProfile_def findIndex_None)
  then show "updateProfile now writable i d st = (Inl (ProfileNotFound i), st)"
    by (simp add: updateProfile_def)
qed

theorem updateProfile_frame_witness:
  "getProfile store_ab ''b'' = Some profile_b
   \<and> fst (updateProfile 99 True ''b'' update_evil store_ab)
       = Inr (profile_b\<lparr>p_displayName := ''Bobby'', p_updatedAt := 99\<rparr>)
   \<and> profiles (snd (updateProfile 99 True ''b'' update_evil store_ab))
       = [profile_a, profile_b\<lparr>p_displayName := ''Bobby'', p_updatedAt := 99\<rparr>]
   \<and> getProfile store_ab ''zz'' = None
   \<and> updateProfile 99 True ''zz'' update_evil store_ab = (Inl (ProfileNotFound ''zz''), store_ab)"
proof -
  note defs = getProfile_def updateProfile_def spread_profile_def saveToFile_def
    store_ab_def profile_a_def profile_b_def update_evil_def Let_def
  have h1: "getProfile store_ab ''b'' = Some profile_b"
    by (simp add: defs)
  have h2: "getProfile store_ab ''zz'' = None"
    by (simp add: defs)
  have c1: "fst (updateProfile 99 True ''b'' update_evil store_ab)
       = Inr (profile_b\<lparr>p_displayName := ''Bobby'', p_updatedAt := 99\<rparr>)"
    by (simp add: defs)
  from updateProfile_frame [of store_ab "''b''" profile_b 99 True update_evil] h1
  obtain k u where ku: "k < length (profiles store_ab)" "profiles store_ab ! k = profile_b"
     "profiles (snd (updateProfile 99 True ''b'' update_evil store_ab))
        = (profiles store_ab)[k := u]"
     "fst (updateProfile 99 True ''b'' update_evil store_ab) = Inr u"
    by blast
  from ku(1,2) have "k = 1"
    by (cases k) (auto simp: store_ab_def profile_a_def profile_b_def)
  with ku(3,4) c1
  have c2: "profiles (snd (updateProfile 99 True ''b'' update_evil store_ab))
       = [profile_a, profile_b\<lparr>p_displayName := ''Bobby'', p_updatedAt := 99\<rparr>]"
    by (simp add: store_ab_def)
  from updateProfile_frame [of store_ab "''zz''" profile_b 99 True update_evil] h2
  have c3: "updateProfile 99 True ''zz'' update_evil store_ab
       = (Inl (ProfileNotFound ''zz''), store_ab)"
    by blast
  from h1 c1 c2 h2 c3 show ?thesis by blast
qed

section \<open>The example parser\<close>

lemmas demo_texts = s1_text_def id1_text_def id2_text_def select_X_text_def

lemma JSON_parse_demo: "JSON_parse parse_demo t = parse_demo_fun t"
proof -
  have "parse_demo_fun \<in> {p. \<forall>t v. p t = Some v \<longrightarrow>
          json_weight v \<le> length t \<and> quote_weight v \<le> quotes t}"
    by (simp add: parse_demo_fun_def demo_texts s1_value_def)
  then show ?thesis
    by (simp add: JSON_parse_def parse_demo_def Abs_json_parser_inverse)
qed

section \<open>Properties of the resource indexer\<close>

subsection \<open>The envelope\<close>

lemma parse_contents_eq:
  "parse_contents parse content acc = acc @ parsed_texts parse content"
  by (induction content arbitrary: acc)
     (auto simp: parsed_texts_def List.map_filter_simps split: option.splits)

text \<open>
  C3. For a response whose \<open>content\<close> is an array: when no text item parses the response
  itself is what \<open>indexResponse\<close> traverses, when exactly one parses it is that parsed
  value, and when two or more parse it is the array of the parsed values.
\<close>

theorem extractMcpContent_cases:
  "map_of resp ''content'' = Some (JArr content) \<Longrightarrow>
   extractMcpContent parse (JObj resp) =
     (case parsed_texts parse content of
        [] \<Rightarrow> JObj resp
      | [v] \<Rightarrow> v
      | v # w # vs \<Rightarrow> JArr (v # w # vs))"
  by (simp add: extractMcpContent_def parse_contents_eq Let_def split: list.splits)

theorem extractMcpContent_cases_witness:
  "extractMcpContent parse_demo (JObj [(''content'', JArr [text_content ''hello''])])
     = JObj [(''content'', JArr [text_content ''hello''])]
   \<and> extractMcpContent parse_demo (JObj [(''content'', JArr [text_content ''hello'', text_content ''7''])])
     = JNum 7
   \<and> extractMcpContent parse_demo
        (JObj [(''content'', JArr [text_content ''7'', text_content ''hello'', text_content ''[1,2]''])])
     = JArr [JNum 7, JArr [JNum 1, JNum 2]]"
proof -
  have p: "parsed_texts parse_demo [text_content ''hello''] = []"
     "parsed_texts parse_demo [text_content ''hello'', text_content ''7''] = [JNum 7]"
     "parsed_texts parse_demo [text_content ''7'', text_content ''hello'', text_content ''[1,2]'']
        = [JNum 7, JArr [JNum 1, JNum 2]]"
    by (simp_all add: parsed_texts_def List.map_filter_simps text_item_def text_content_def
          JSON_parse_demo parse_demo_fun_def demo_texts)
  show ?thesis
    using extractMcpContent_cases [of "[(''content'', JArr [text_content ''hello''])]"
            "[text_content ''hello'']" parse_demo]
          extractMcpContent_cases [of "[(''content'', JArr [text_content ''hello'', text_content ''7''])]"
            "[text_content ''hello'', text_content ''7'']" parse_demo]
          extractMcpContent_cases [of
            "[(''content'', JArr [text_content ''7'', text_content ''hello'', text_content ''[1,2]''])]"
            "[text_content ''7'', text_content ''hello'', text_content ''[1,2]'']" parse_demo]
    by (simp add: p)
qed

subsection \<open>Strings under a field name that is not ID-like\<close>

lemma uuid_length: "pattern_uuid s \<Longrightarrow> length s = 36"
  by (simp add: pattern_uuid_def)

lemma atlassianKey_nonempty: "pattern_atlassianKey s \<Longrightarrow> s \<noteq> [] \<and> is_upper (hd s)"
  by (cases s) (auto simp: pattern_atlassianKey_def split: if_splits)

lemma atlassianAri_hd: "pattern_atlassianAri s \<Longrightarrow> s \<noteq> [] \<and> hd s = CHR ''a''"
  by (cases s) (auto simp: pattern_atlassianAri_def startsWith_def)

lemma detectIdType_strong:
  "pattern_uuid s \<or> pattern_atlassianKey s \<Longrightarrow>
   detectIdType s = (if length s \<le> 500 then Some (if pattern_uuid s then Uuid else Slug) else None)"
proof (cases "pattern_uuid s")
  case True
  then show ?thesis using uuid_length [OF True] by (simp add: detectIdType_def)
next
  case False
  assume "pattern_uuid s \<or> pattern_atlassianKey s"
  with False have k: "pattern_atlassianKey s" by simp
  have "\<not> pattern_atlassianAri s"
    using atlassianKey_nonempty [OF k] atlassianAri_hd [of s]
    by (auto simp: is_upper_def)
  with k False atlassianKey_nonempty [OF k] show ?thesis
    by (auto simp: detectIdType_def)
qed

text \<open>
  C8, as the code has it. Under a field name that is not ID-like, a string is emitted
  exactly when it matches the UUID pattern or the Atlassian key pattern and has at most
  500 characters; the entry carries the string, the type \<open>uuid\<close> or \<open>slug\<close>, the field name,
  the path and the sanitized parent. A UUID always passes the length test.
\<close>

theorem extractIds_strong_patterns:
  "\<not> isIdFieldName (fieldName_of path) \<Longrightarrow>
   extractIds (JStr s) path results parentObj =
     (if (pattern_uuid s \<or> pattern_atlassianKey s) \<and> length s \<le> 500
      then results @
             [\<lparr> e_id = s, e_type = (if pattern_uuid s then Uuid else Slug),
                e_fieldName = fieldName_of path, e_fieldPath = path,
                e_parentContext = parent_context parentObj \<rparr>]
      else results)"
  using detectIdType_strong [of s]
  by (auto simp: extractIds_string_def Let_def)

text \<open>
  A UUID under the field \<open>ref\<close> is emitted; a plain slug under the same field is not.
\<close>

theorem extractIds_strong_patterns_witness:
  "\<not> isIdFieldName (fieldName_of ''items[0].ref'')
   \<and> extractIds (JStr ''550e8400-e29b-41d4-a716-446655440000'') ''items[0].ref'' [] None
       = [\<lparr> e_id = ''550e8400-e29b-41d4-a716-446655440000'', e_type = Uuid,
            e_fieldName = ''ref'', e_fieldPath = ''items[0].ref'', e_parentContext = [] \<rparr>]
   \<and> pattern_slug ''my-slug''
   \<and> extractIds (JStr ''my-slug'') ''items[0].ref'' [] None = []"
proof -
  have h: "\<not> isIdFieldName (fieldName_of ''items[0].ref'')" by code_simp
  have u: "pattern_uuid ''550e8400-e29b-41d4-a716-446655440000''" by code_simp
  have f: "fieldName_of ''items[0].ref'' = ''ref''" by code_simp
  have s: "pattern_slug ''my-slug''" "\<not> pattern_uuid ''my-slug''"
     "\<not> pattern_atlassianKey ''my-slug''" by code_simp+
  from extractIds_strong_patterns [OF h, of "''550e8400-e29b-41d4-a716-446655440000''" "[]" None] u f
  have a: "extractIds (JStr ''550e8400-e29b-41d4-a716-446655440000'') ''items[0].ref'' [] None
       = [\<lparr> e_id = ''550e8400-e29b-41d4-a716-446655440000'', e_type = Uuid,
            e_fieldName = ''ref'', e_fieldPath = ''items[0].ref'', e_parentContext = [] \<rparr>]"
    by (simp add: parent_context_def)
  from extractIds_strong_patterns [OF h, of "''my-slug''" "[]" None] s
  have b: "extractIds (JStr ''my-slug'') ''items[0].ref'' [] None = []"
    by simp
  from h a s(1) b show ?thesis by blast
qed

text \<open>
  The claim as stated fails: a string of 501 characters that matches the Atlassian key
  pattern, under the field \<open>title\<close>, is not emitted.
\<close>

theorem strong_pattern_long_key:
  "\<not> isIdFieldName (fieldName_of ''title'')
   \<and> pattern_atlassianKey (''A-'' @ replicate 499 (CHR ''1''))
   \<and> length (''A-'' @ replicate 499 (CHR ''1'')) = 501
   \<and> extractIds (JStr (''A-'' @ replicate 499 (CHR ''1''))) ''title'' [] None = []"
  by code_simp

subsection \<open>Deduplication\<close>

lemma index_loop_inv:
  "indexer_inv st \<Longrightarrow>
   indexer_inv (snd (index_loop uuid now u tool un uc es (nr, st)))"
proof (induction es arbitrary: nr st)
  case Nil
  then show ?case by simp
next
  case (Cons e es)
  let ?key = "uniqueKey (e_id e) (user_or_anonymous u)"
  show ?case
  proof (cases "?key \<in> seenIds st")
    case True
    with Cons show ?thesis by (simp add: Let_def)
  next
    case False
    have fresh: "(e_id e, user_or_anonymous u)
        \<notin> (\<lambda>r. (r_id r, r_discoveredFromUser r)) ` set (resources st)"
    proof
      assume "(e_id e, user_or_anonymous u)
          \<in> (\<lambda>r. (r_id r, r_discoveredFromUser r)) ` set (resources st)"
      then obtain r where r: "r \<in> set (resources st)" "r_id r = e_id e"
          "r_discoveredFromUser r = user_or_anonymous u"
        by auto
      with Cons.prems have "?key \<in> seenIds st"
        by (auto simp: indexer_inv_def list_all_iff)
      with False show False by simp
    qed
    from Cons.prems fresh
    have "indexer_inv (st\<lparr> seenIds := insert ?key (seenIds st),
              resources := resources st @
                [\<lparr> r_entryId = uuid (length nr),
                   r_id = e_id e, r_type = e_type e, r_fieldName = e_fieldName e,
                   r_fieldPath = e_fieldPath e, r_parentContext = e_parentContext e,
                   r_discoveredByTool = tool,
                   r_discoveredFromUser = user_or_anonymous u,
                   r_discoveredFromUserName = un,
                   r_userColorTag = uc,
                   r_timestamp = now \<rparr>] \<rparr>)"
      by (auto simp: indexer_inv_def list_all_iff)
    from Cons.IH [OF this] False show ?thesis by (simp add: Let_def)
  qed
qed

lemma index_loop_seen_mono:
  "k \<in> seenIds st \<Longrightarrow> k \<in> seenIds (snd (index_loop uuid now u tool un uc es (nr, st)))"
  by (induction es arbitrary: nr st) (auto simp: Let_def)

lemma index_loop_covers:
  "e \<in> set es \<Longrightarrow>
   uniqueKey (e_id e) (user_or_anonymous u)
     \<in> seenIds (snd (index_loop uuid now u tool un uc es (nr, st)))"
proof (induction es arbitrary: nr st)
  case Nil
  then show ?case by simp
next
  case (Cons x es)
  show ?case
  proof (cases "e = x")
    case True
    then show ?thesis
      by (auto simp: Let_def intro: index_loop_seen_mono)
  next
    case False
    with Cons.prems have "e \<in> set es" by simp
    from Cons.IH [OF this] show ?thesis by (simp add: Let_def)
  qed
qed

lemma index_loop_idle:
  "list_all (\<lambda>e. uniqueKey (e_id e) (user_or_anonymous u) \<in> seenIds st) es \<Longrightarrow>
   index_loop uuid now u tool un uc es (nr, st) = (nr, st)"
  by (induction es) (auto simp: Let_def)

lemma seenIds_save [simp]: "seenIds (save_resources w st) = seenIds st"
  by (simp add: save_resources_def)

lemma resources_save [simp]: "resources (save_resources w st) = resources st"
  by (simp add: save_resources_def)

lemma indexer_inv_save: "indexer_inv (save_resources w st) = indexer_inv st"
  by (simp add: indexer_inv_def)

lemma indexResponse_inv:
  "indexer_inv st \<Longrightarrow> indexer_inv (snd (indexResponse parse c st))"
  using index_loop_inv [of st "c_uuid c" "c_now c" "c_userProfileId c" "c_toolName c"
     "userName_of (lookup_profile (c_profiles c) (c_userProfileId c))"
     "userColor_of (lookup_profile (c_profiles c) (c_userProfileId c))"
     "extractIds (extractMcpContent parse (c_response c)) [] [] None" "[]"]
  by (auto simp: indexResponse_def Let_def indexer_inv_save split: prod.splits)

lemma index_calls_inv:
  "indexer_inv st \<Longrightarrow> indexer_inv (index_calls parse cs st)"
  by (induction cs arbitrary: st) (auto intro: indexResponse_inv)

lemma indexResponse_again:
  assumes "c_userProfileId c' = c_userProfileId c" "c_response c' = c_response c"
  shows "indexResponse parse c' (snd (indexResponse parse c st))
           = ([], snd (indexResponse parse c st))"
proof -
  let ?es = "extractIds (extractMcpContent parse (c_response c)) [] [] None"
  let ?u = "c_userProfileId c"
  let ?run = "index_loop (c_uuid c) (c_now c) ?u (c_toolName c)
     (userName_of (lookup_profile (c_profiles c) ?u))
     (userColor_of (lookup_profile (c_profiles c) ?u)) ?es ([], st)"
  have seen: "seenIds (snd (indexResponse parse c st)) = seenIds (snd ?run)"
    by (auto simp: indexResponse_def Let_def split: prod.splits)
  have "list_all (\<lambda>e. uniqueKey (e_id e) (user_or_anonymous ?u) \<in> seenIds (snd ?run)) ?es"
    unfolding list_all_iff using index_loop_covers by blast
  with seen have cov: "list_all (\<lambda>e. uniqueKey (e_id e) (user_or_anonymous ?u)
       \<in> seenIds (snd (indexResponse parse c st))) ?es"
    by simp
  show ?thesis
    using index_loop_idle [OF cov] assms
    by (simp add: indexResponse_def [of parse c'] Let_def)
qed

text \<open>
  C2. After any sequence of \<open>indexResponse\<close> calls on a new indexer, no two entries of the
  index share the pair of \<open>id\<close> and \<open>discoveredFromUser\<close>. From any state, repeating a call
  (same user, tool and response; the clock, the random ids, the profile store and the
  file system may differ) returns the empty array and leaves the number of resources at
  what it was after the first call.
\<close>

theorem indexResponse_dedup:
  "distinct (map (\<lambda>r. (r_id r, r_discoveredFromUser r))
      (resources (index_calls parse cs new_indexer)))
   \<and> fst (indexResponse parse
            (c\<lparr>c_uuid := uuid', c_now := now', c_writable := w', c_profiles := pm'\<rparr>)
            (snd (indexResponse parse c st))) = []
   \<and> length (resources (snd (indexResponse parse
            (c\<lparr>c_uuid := uuid', c_now := now', c_writable := w', c_profiles := pm'\<rparr>)
            (snd (indexResponse parse c st)))))
       = length (resources (snd (indexResponse parse c st)))"
proof -
  have "indexer_inv new_indexer"
    by (simp add: indexer_inv_def new_indexer_def)
  from index_calls_inv [OF this]
  have d: "distinct (map (\<lambda>r. (r_id r, r_discoveredFromUser r))
      (resources (index_calls parse cs new_indexer)))"
    by (simp add: indexer_inv_def)
  have "indexResponse parse
          (c\<lparr>c_uuid := uuid', c_now := now', c_writable := w', c_profiles := pm'\<rparr>)
          (snd (indexResponse parse c st)) = ([], snd (indexResponse parse c st))"
    by (rule indexResponse_again) simp_all
  with d show ?thesis by simp
qed

text \<open>Scenario S2: the call of S1 made twice on a new indexer.\<close>

lemma s1_extracted:
  "extractIds s1_value [] [] None
     = [\<lparr> e_id = ''550e8400-e29b-41d4-a716-446655440000'', e_type = Uuid, e_fieldName = ''id'',
          e_fieldPath = ''results[0].id'',
          e_parentContext = [(''id'', JStr ''550e8400-e29b-41d4-a716-446655440000''),
                             (''title'', JStr ''hello'')] \<rparr>]"
  unfolding s1_value_def by code_simp

lemma s1_content: "extractMcpContent parse_demo s1_response = s1_value"
  by (simp add: extractMcpContent_def s1_response_def text_content_def text_item_def
        JSON_parse_demo parse_demo_fun_def)

lemma s1_first_call:
  "map r_id (fst (indexResponse parse_demo s1_call new_indexer))
     = [''550e8400-e29b-41d4-a716-446655440000'']
   \<and> map r_fieldPath (fst (indexResponse parse_demo s1_call new_indexer)) = [''results[0].id'']
   \<and> length (resources (snd (indexResponse parse_demo s1_call new_indexer))) = 1"
  by (simp add: indexResponse_def s1_call_def s1_content s1_extracted new_indexer_def
        save_resources_def Let_def)

theorem indexResponse_dedup_witness:
  "length (resources (snd (indexResponse parse_demo s1_call new_indexer))) = 1
   \<and> fst (indexResponse parse_demo s1_call (snd (indexResponse parse_demo s1_call new_indexer))) = []
   \<and> length (resources (index_calls parse_demo [s1_call, s1_call] new_indexer)) = 1
   \<and> distinct (map (\<lambda>r. (r_id r, r_discoveredFromUser r))
        (resources (index_calls parse_demo [s1_call, s1_call] new_indexer)))"
proof -
  have same: "s1_call\<lparr>c_uuid := c_uuid s1_call, c_now := c_now s1_call,
      c_writable := c_writable s1_call, c_profiles := c_profiles s1_call\<rparr> = s1_call"
    by simp
  from indexResponse_dedup [where parse = parse_demo and cs = "[s1_call, s1_call]"
      and c = s1_call and uuid' = "c_uuid s1_call" and now' = "c_now s1_call"
      and w' = "c_writable s1_call" and pm' = "c_profiles s1_call" and st = new_indexer]
  show ?thesis
    unfolding same using s1_first_call by simp
qed

section \<open>Properties of \<open>flattenResult\<close>\<close>

lemma distinct_set_property:
  "distinct (map fst (fst flat)) \<Longrightarrow> distinct (map fst (fst (set_property k v flat)))"
  by (cases flat) (simp add: set_property_def distinct_update)

lemma distinct_Object_assign:
  "distinct (map fst (fst flat)) \<Longrightarrow> distinct (map fst (fst (Object_assign flat sub)))"
  unfolding Object_assign_def
proof (induction sub arbitrary: flat)
  case Nil
  then show ?case by simp
next
  case (Cons e sub)
  obtain k v where e: "e = (k, v)" by (cases e)
  from Cons.prems have "distinct (map fst (fst (set_property k v flat)))"
    by (rule distinct_set_property)
  then show ?case
    by (simp add: e Cons.IH)
qed

lemma flatten_distinct:
  "distinct (map fst (flattenResult parse r prefix))"
  "distinct (map fst (fst flat)) \<Longrightarrow> distinct (map fst (fst (flatten_content parse items prefix flat)))"
  "distinct (map fst (fst flat)) \<Longrightarrow> distinct (map fst (fst (flatten_entries parse es prefix flat)))"
  by (induction parse r prefix and parse items prefix flat and parse es prefix flat
        rule: flattenResult_flatten_content_flatten_entries.induct)
     (auto simp: Let_def new_object_def distinct_set_property distinct_Object_assign
           split: option.splits json.splits)

text \<open>At a key other than \<open>__proto__\<close> an assignment is an update of the own properties.\<close>

lemma map_of_set_property:
  "k \<noteq> ''__proto__'' \<Longrightarrow>
     map_of (fst (set_property k' v flat)) k = (if k' = k then Some v else map_of (fst flat) k)"
  by (cases flat) (auto simp: set_property_def update_conv')

lemma map_of_Object_assign_rev:
  "k \<noteq> ''__proto__'' \<Longrightarrow>
     map_of (fst (Object_assign flat sub)) k = (map_of (fst flat) ++ map_of (rev sub)) k"
  unfolding Object_assign_def
proof (induction sub arbitrary: flat)
  case Nil
  then show ?case by simp
next
  case (Cons e sub)
  obtain k' v where e: "e = (k', v)" by (cases e)
  have "map_of (fst (fold (\<lambda>(k, v). set_property k v) sub (set_property k' v flat))) k
        = (map_of (fst (set_property k' v flat)) ++ map_of (rev sub)) k"
    by (rule Cons.IH) (rule Cons.prems)
  also have "\<dots> = (map_of (fst flat) ++ map_of (rev (e # sub))) k"
    using Cons.prems
    by (simp add: e map_of_set_property map_of_append map_add_def split: option.splits)
  finally show ?case
    by (simp add: e)
qed

lemma map_of_rev_distinct:
  "distinct (map fst xs) \<Longrightarrow> map_of (rev xs) = map_of xs"
proof (induction xs)
  case Nil
  then show ?case by simp
next
  case (Cons e xs)
  obtain k v where e: "e = (k, v)" by (cases e)
  from Cons.prems e have k: "k \<notin> fst ` set xs" by simp
  then have "map_of xs k = None"
    by (simp add: map_of_eq_None_iff)
  with Cons show ?case
    by (auto simp: e map_of_append map_add_def fun_eq_iff split: option.splits)
qed

lemma map_of_Object_assign:
  "k \<noteq> ''__proto__'' \<Longrightarrow> distinct (map fst sub) \<Longrightarrow>
     map_of (fst (Object_assign flat sub)) k = (map_of (fst flat) ++ map_of sub) k"
  by (simp add: map_of_Object_assign_rev map_of_rev_distinct)

lemma writes_of_simps [simp]:
  "writes_of [] = []"
  "writes_of (x # xs) = visit_writes x @ writes_of xs"
  "writes_of (xs @ ys) = writes_of xs @ writes_of ys"
  by (simp_all add: writes_of_def)

text \<open>
  At every key other than \<open>__proto__\<close> the flattened record is the replay of the writes:
  the last write to the key wins.
\<close>

lemma flatten_replay:
  assumes k: "k \<noteq> ''__proto__''"
  shows "map_of (flattenResult parse r prefix) k
     = map_of (rev (writes_of (flatten_visits parse r prefix))) k"
  and "map_of (fst (flatten_content parse items prefix flat)) k
     = (map_of (fst flat) ++ map_of (rev (writes_of (content_visits parse items prefix)))) k"
  and "map_of (fst (flatten_entries parse es prefix flat)) k
     = (map_of (fst flat) ++ map_of (rev (writes_of (entries_visits parse es prefix)))) k"
proof (induction parse r prefix and parse items prefix flat and parse es prefix flat
    rule: flattenResult_flatten_content_flatten_entries.induct)
  case (1 parse fs prefix)
  show ?case
  proof (cases "map_of fs ''content''")
    case None
    with 1 show ?thesis by (simp add: new_object_def)
  next
    case (Some c)
    with 1 show ?thesis by (cases c) (simp_all add: new_object_def)
  qed
next
  case (3 parse first rest prefix)
  then show ?case
    using k
    by (simp add: map_of_set_property map_of_Object_assign flatten_distinct new_object_def
          map_add_def)
next
  case (6 parse item items prefix flat)
  show ?case
  proof (cases "item_text item")
    case None
    with 6 show ?thesis by simp
  next
    case t: (Some t)
    show ?thesis
    proof (cases "JSON_parse_value parse t")
      case None
      with t 6 show ?thesis by simp
    next
      case (Some parsed)
      with t 6 show ?thesis
        using k
        by (simp add: map_of_Object_assign flatten_distinct map_of_append map_add_def
              split: option.splits)
    qed
  qed
next
  case (8 parse key v es prefix flat)
  define np where "np = (if prefix \<noteq> [] then prefix @ ''.'' @ key else key)"
  show ?case
  proof (cases "is_object v")
    case True
    with 8(1) [OF np_def] 8(2)
    show ?thesis
      unfolding np_def [symmetric]
      using k
      by (simp add: Let_def np_def [symmetric] map_of_Object_assign flatten_distinct
            map_of_append map_add_def split: option.splits)
  next
    case False
    let ?W = "map_of (rev (writes_of (entries_visits parse es prefix)))"
    have eq1: "flatten_entries parse ((key, v) # es) prefix flat
        = flatten_entries parse es prefix (set_property np v (set_property key v flat))"
      using False by (simp add: Let_def np_def)
    have eq2: "entries_visits parse ((key, v) # es) prefix
        = Leaf key np v # entries_visits parse es prefix"
      using False by (simp add: Let_def np_def)
    have ih: "map_of (fst (flatten_entries parse es prefix (set_property np v (set_property key v flat)))) k
        = (map_of (fst (set_property np v (set_property key v flat))) ++ ?W) k"
      using 8(2) False by (simp add: Let_def np_def)
    have "(map_of (fst (set_property np v (set_property key v flat))) ++ ?W) k
        = (map_of (fst flat) ++ map_of (rev (writes_of (Leaf key np v # entries_visits parse es prefix)))) k"
      using k
      by (simp add: map_of_set_property map_of_append map_add_def split: option.splits)
    with ih show ?thesis
      by (simp only: eq1 eq2)
  qed
qed simp_all

lemma replay_read:
  assumes "(k, v) \<in> set ws" and "\<forall>(k', v') \<in> set ws. k' = k \<longrightarrow> v' = v"
  shows "map_of (rev ws) k = Some v"
proof (cases "map_of (rev ws) k")
  case None
  then have "k \<notin> fst ` set (rev ws)" by (simp add: map_of_eq_None_iff)
  with assms(1) show ?thesis by force
next
  case (Some w)
  then have "(k, w) \<in> set ws" by (auto dest: map_of_SomeD)
  with assms(2) Some show ?thesis by auto
qed

lemma leaf_writes:
  "Leaf key path v \<in> set vs \<Longrightarrow> (key, v) \<in> set (writes_of vs) \<and> (path, v) \<in> set (writes_of vs)"
  by (induction vs) auto

text \<open>
  C9, as the code has it. At every key other than \<open>__proto__\<close> the flattened record is the
  replay of the writes of the walk, in their order: reading the key yields the value of
  the last write to it, if there is one. A leaf that the walk visits is written under its
  bare key and under its full dotted path. So reading the flattened record at the bare key
  yields the leaf's value, provided the key is not \<open>__proto__\<close> and no write of the walk puts
  another value under it, and so does reading at the dotted path, under the same proviso.
\<close>

theorem flatten_read_back:
  "(\<forall>k. k \<noteq> ''__proto__'' \<longrightarrow>
        map_of (flattenResult parse result prefix) k
          = map_of (rev (writes_of (flatten_visits parse result prefix))) k)
   \<and> (Leaf key path v \<in> set (flatten_visits parse result prefix) \<longrightarrow>
        (key, v) \<in> set (writes_of (flatten_visits parse result prefix))
      \<and> (path, v) \<in> set (writes_of (flatten_visits parse result prefix))
      \<and> (key \<noteq> ''__proto__''
           \<and> (\<forall>(k', v') \<in> set (writes_of (flatten_visits parse result prefix)).
                 k' = key \<longrightarrow> v' = v) \<longrightarrow>
           map_of (flattenResult parse result prefix) key = Some v)
      \<and> (path \<noteq> ''__proto__''
           \<and> (\<forall>(k', v') \<in> set (writes_of (flatten_visits parse result prefix)).
                 k' = path \<longrightarrow> v' = v) \<longrightarrow>
           map_of (flattenResult parse result prefix) path = Some v))"
proof (intro conjI impI allI)
  let ?ws = "writes_of (flatten_visits parse result prefix)"
  show "map_of (flattenResult parse result prefix) k = map_of (rev ?ws) k"
    if "k \<noteq> ''__proto__''" for k
    using that by (rule flatten_replay(1))
  assume leaf: "Leaf key path v \<in> set (flatten_visits parse result prefix)"
  from leaf_writes [OF leaf] show "(key, v) \<in> set ?ws" and "(path, v) \<in> set ?ws"
    by simp_all
  show "map_of (flattenResult parse result prefix) key = Some v"
    if "key \<noteq> ''__proto__'' \<and> (\<forall>(k', v') \<in> set ?ws. k' = key \<longrightarrow> v' = v)"
    using that leaf_writes [OF leaf] by (simp add: flatten_replay(1) replay_read)
  show "map_of (flattenResult parse result prefix) path = Some v"
    if "path \<noteq> ''__proto__'' \<and> (\<forall>(k', v') \<in> set ?ws. k' = path \<longrightarrow> v' = v)"
    using that leaf_writes [OF leaf] by (simp add: flatten_replay(1) replay_read)
qed

text \<open>
  Two nested objects with leaves of different bare keys, and two that share one; an
  envelope whose text is an array, and one with two texts that both give a leaf \<open>id\<close>.
\<close>

lemma nested_distinct_visits:
  "flatten_visits parse_demo nested_distinct [] =
     [Leaf ''id'' ''a.id'' (JNum 1), Leaf ''name'' ''b.name'' (JStr ''x'')]"
  by (simp add: nested_distinct_def Let_def is_object_def)

lemma array_text_parsed:
  "JSON_parse_value parse_demo (JArr [JStr id2_text]) = Some (JObj [(''id'', JNum 2)])"
  "JSON_parse_value parse_demo (JStr id1_text) = Some (JObj [(''id'', JNum 1)])"
  by (simp_all add: JSON_parse_value_def JSON_parse_demo parse_demo_fun_def demo_texts)

lemma array_text_visits:
  "flatten_visits parse_demo array_text_envelope [] = [Leaf ''id'' ''id'' (JNum 2)]"
  by (simp add: array_text_envelope_def array_text_item_def item_text_def array_text_parsed
        Let_def is_object_def)

lemma two_texts_flattened:
  "flatten_visits parse_demo two_texts_envelope [] =
     [Leaf ''id'' ''id'' (JNum 1), Leaf ''id'' ''id'' (JNum 2)]"
  "flattenResult parse_demo two_texts_envelope [] = [(''id'', JNum 2)]"
  by (simp_all add: two_texts_envelope_def array_text_item_def text_content_def item_text_def
        array_text_parsed Let_def is_object_def set_property_def Object_assign_def new_object_def)

theorem flatten_read_back_witness:
  "Leaf ''id'' ''a.id'' (JNum 1) \<in> set (flatten_visits parse_demo nested_distinct [])
   \<and> map_of (flattenResult parse_demo nested_distinct []) ''id'' = Some (JNum 1)
   \<and> map_of (flattenResult parse_demo nested_distinct []) ''a.id'' = Some (JNum 1)
   \<and> Leaf ''id'' ''id'' (JNum 2) \<in> set (flatten_visits parse_demo array_text_envelope [])
   \<and> map_of (flattenResult parse_demo array_text_envelope []) ''id'' = Some (JNum 2)"
proof -
  have h1: "Leaf ''id'' ''a.id'' (JNum 1) \<in> set (flatten_visits parse_demo nested_distinct [])"
    by (simp add: nested_distinct_visits)
  have h2: "\<forall>(k', v') \<in> set (writes_of (flatten_visits parse_demo nested_distinct [])).
           k' = ''id'' \<longrightarrow> v' = JNum 1"
    and h3: "\<forall>(k', v') \<in> set (writes_of (flatten_visits parse_demo nested_distinct [])).
           k' = ''a.id'' \<longrightarrow> v' = JNum 1"
    by (simp_all add: nested_distinct_visits)
  have n: "''id'' \<noteq> ''__proto__''" "''a.id'' \<noteq> ''__proto__''"
    by simp_all
  have g1: "Leaf ''id'' ''id'' (JNum 2) \<in> set (flatten_visits parse_demo array_text_envelope [])"
    by (simp add: array_text_visits)
  have g2: "\<forall>(k', v') \<in> set (writes_of (flatten_visits parse_demo array_text_envelope [])).
           k' = ''id'' \<longrightarrow> v' = JNum 2"
    by (simp add: array_text_visits)
  from flatten_read_back [of parse_demo nested_distinct "[]" "''id''" "''a.id''" "JNum 1"]
    h1 h2 h3 n
  have r1: "map_of (flattenResult parse_demo nested_distinct []) ''id'' = Some (JNum 1)"
    "map_of (flattenResult parse_demo nested_distinct []) ''a.id'' = Some (JNum 1)"
    by blast+
  from flatten_read_back [of parse_demo array_text_envelope "[]" "''id''" "''id''" "JNum 2"]
    g1 g2 n(1)
  have r2: "map_of (flattenResult parse_demo array_text_envelope []) ''id'' = Some (JNum 2)"
    by blast
  from h1 r1 g1 r2 show ?thesis by blast
qed

text \<open>
  The claim as stated fails: in \<open>{a: {id: 1}, b: {id: 2}}\<close> the leaf \<open>id = 1\<close> of \<open>a\<close> reads
  back as 1 under its dotted path \<open>a.id\<close> and as 2 under its bare key \<open>id\<close>. And in
  \<open>{a: {__proto__: 1}}\<close> the leaf reads back as 1 under \<open>a.__proto__\<close>, while the record has no
  property \<open>__proto__\<close>: the assignment went to the inherited setter.
\<close>

theorem flatten_shared_key:
  "Leaf ''id'' ''a.id'' (JNum 1) \<in> set (flatten_visits parse_demo nested_shared [])
   \<and> map_of (flattenResult parse_demo nested_shared []) ''a.id'' = Some (JNum 1)
   \<and> map_of (flattenResult parse_demo nested_shared []) ''id'' = Some (JNum 2)
   \<and> Leaf ''__proto__'' ''a.__proto__'' (JNum 1) \<in> set (flatten_visits parse_demo nested_proto [])
   \<and> map_of (flattenResult parse_demo nested_proto []) ''a.__proto__'' = Some (JNum 1)
   \<and> map_of (flattenResult parse_demo nested_proto []) ''__proto__'' = None"
  by (simp add: nested_shared_def nested_proto_def Object_assign_def set_property_def
        new_object_def Let_def is_object_def)

text \<open>
  The key \<open>__proto__\<close> at the top, where it is also the dotted path: with the value \<open>null\<close>
  the first assignment removes the prototype and the second one creates the property;
  with the value 5 both are ignored.
\<close>

lemma proto_null_example:
  "flattenResult parse_demo (JObj [(''__proto__'', JNull), (''x'', JNum 1)]) []
     = [(''__proto__'', JNull), (''x'', JNum 1)]"
  "flattenResult parse_demo (JObj [(''__proto__'', JNum 5), (''x'', JNum 1)]) []
     = [(''x'', JNum 1)]"
  by (simp_all add: Object_assign_def set_property_def new_object_def Let_def is_object_def)

section \<open>Properties of the Gemini client\<close>

lemma fallback_no_params_find:
  "fallback_no_params tools =
     map_option (\<lambda>t. \<lparr> sel_tool = Some (t_name t),
                          sel_reason = ''Fallback: no parameters required'' \<rparr>)
       (find (\<lambda>t. required_of t = []) tools)"
  by (induction tools) simp_all

lemma fallback_in_context_find:
  "fallback_in_context ctx tools =
     map_option (\<lambda>t. \<lparr> sel_tool = Some (t_name t),
                          sel_reason = ''Fallback: params likely available in context'' \<rparr>)
       (find (\<lambda>t. list_all (context_has_param ctx) (required_of t)) tools)"
  by (induction tools) simp_all

lemma context_has_param_iff:
  "context_has_param ctx param \<longleftrightarrow>
     (\<exists>(key, data) \<in> set ctx. is_object data
         \<and> (str_includes (JSON_stringify data) param
              \<or> str_includes (JSON_stringify data) ''cloudId''
              \<or> str_includes (JSON_stringify data) ''id''))"
  by (auto simp: context_has_param_def list_ex_iff Let_def split: if_splits)

text \<open>
  C7, as the code has it. When the model is asked (the depth bound is not reached and
  some tool is unexecuted) and its reply does not parse, \<open>selectNextTool\<close> returns a
  result and no error: the first unexecuted tool with no required parameter if there is
  one; otherwise the first unexecuted tool such that for each required name some object
  in the context has a JSON text containing that name or \<open>cloudId\<close> or \<open>id\<close>; otherwise
  the result with \<open>tool = null\<close>.
\<close>

theorem selectNextTool_parse_failure:
  assumes "currentDepth < maxDepth"
    and "filter (\<lambda>t. t_name t \<notin> set executed) tools \<noteq> []"
    and "parseJSONResponse parse response = None"
  shows "selectNextTool parse tools executed ctx currentDepth maxDepth (Inr response) =
     Inr (case find (\<lambda>t. required_of t = []) (filter (\<lambda>t. t_name t \<notin> set executed) tools) of
            Some t \<Rightarrow> \<lparr> sel_tool = Some (t_name t),
                         sel_reason = ''Fallback: no parameters required'' \<rparr>
          | None \<Rightarrow>
              (case find (\<lambda>t. \<forall>param \<in> set (required_of t).
                               \<exists>(key, data) \<in> set ctx. is_object data
                                 \<and> (str_includes (JSON_stringify data) param
                                      \<or> str_includes (JSON_stringify data) ''cloudId''
                                      \<or> str_includes (JSON_stringify data) ''id''))
                      (filter (\<lambda>t. t_name t \<notin> set executed) tools) of
                 Some t \<Rightarrow> \<lparr> sel_tool = Some (t_name t),
                              sel_reason = ''Fallback: params likely available in context'' \<rparr>
               | None \<Rightarrow> \<lparr> sel_tool = None,
                            sel_reason = ''No suitable tool found in fallback'' \<rparr>))"
proof -
  have p: "(\<lambda>t. list_all (context_has_param ctx) (required_of t)) =
     (\<lambda>t. \<forall>param \<in> set (required_of t).
             \<exists>(key, data) \<in> set ctx. is_object data
               \<and> (str_includes (JSON_stringify data) param
                    \<or> str_includes (JSON_stringify data) ''cloudId''
                    \<or> str_includes (JSON_stringify data) ''id''))"
    by (simp add: list_all_iff context_has_param_iff)
  show ?thesis
    using assms
    by (simp add: selectNextTool_def Let_def fallbackToolSelection_def
          fallback_no_params_find fallback_in_context_find p split: option.splits)
qed

lemma not_json_fails: "parseJSONResponse parse_demo ''not json'' = None"
  by (simp add: parseJSONResponse_def JSON_parse_demo parse_demo_fun_def demo_texts
        strip_fences_def trim_def is_space_def startsWith_def endsWith_def Let_def)

text \<open>
  A tool without required parameters is preferred; with an empty context a tool that
  needs \<open>zzz\<close> is not selected.
\<close>

theorem selectNextTool_parse_failure_witness:
  "selectNextTool parse_demo [tool_needs_zzz, tool_no_params] [] context_with_id 0 10
       (Inr ''not json'')
     = Inr \<lparr> sel_tool = Some ''L'', sel_reason = ''Fallback: no parameters required'' \<rparr>
   \<and> selectNextTool parse_demo [tool_needs_zzz, tool_no_params] [''L''] [] 0 10 (Inr ''not json'')
     = Inr \<lparr> sel_tool = None, sel_reason = ''No suitable tool found in fallback'' \<rparr>"
proof -
  have h1: "(0::int) < 10" by simp
  have h2: "filter (\<lambda>t. t_name t \<notin> set []) [tool_needs_zzz, tool_no_params] \<noteq> []"
    by simp
  have h3: "filter (\<lambda>t. t_name t \<notin> set [''L'']) [tool_needs_zzz, tool_no_params] \<noteq> []"
    by (simp add: tool_needs_zzz_def)
  show ?thesis
    using selectNextTool_parse_failure [OF h1 h2 not_json_fails, of context_with_id]
          selectNextTool_parse_failure [OF h1 h3 not_json_fails, of "[]"]
    by (simp add: tool_needs_zzz_def tool_no_params_def required_of_def)
qed

text \<open>
  The claim as stated fails: the only unexecuted tool requires \<open>zzz\<close>, which occurs in no
  context value, and the fallback still selects it, because the context contains \<open>id\<close>.
\<close>

theorem fallback_selects_without_param:
  "required_of tool_needs_zzz = [''zzz'']
   \<and> context_with_id = [(''A'', JObj [(''id'', JStr ''1'')])]
   \<and> \<not> str_includes (JSON_stringify (JObj [(''id'', JStr ''1'')])) ''zzz''
   \<and> selectNextTool parse_demo [tool_needs_zzz] [] context_with_id 0 10 (Inr ''not json'')
       = Inr \<lparr> sel_tool = Some ''T'',
               sel_reason = ''Fallback: params likely available in context'' \<rparr>"
  by (simp add: selectNextTool_def not_json_fails fallbackToolSelection_def
        tool_needs_zzz_def required_of_def context_with_id_def context_has_param_def
        is_object_def quote_def escape_char_def startsWith_def Let_def)

section \<open>Properties of the proxy\<close>

text \<open>
  C5. Scenario S6 on a new proxy: the client's request 42 is recorded, the send to the
  server is rejected with \<open>ECONNRESET\<close>, and the client connection is open. The client is
  sent the error response with id 42, code -32001 and the message of the error. The
  correlation table still holds the entry of request 42 afterwards; only a response from
  the server with that id (or a close) would remove it.
\<close>

theorem send_failure_keeps_entry:
  "to_client (server_send_failed request_42 econnreset (client_onmessage request_42 (new_proxy ix pm)))
     = [ErrorResponse (IdNum 42) (- 32001) ''ECONNRESET'' econnreset]
   \<and> map_of (pendingRequests
         (server_send_failed request_42 econnreset (client_onmessage request_42 (new_proxy ix pm))))
         (IdNum 42)
     = Some \<lparr> pr_method = ''tools/call'', pr_toolName = Some ''listThings'' \<rparr>
   \<and> map_of (pendingRequests
         (server_onmessage parse uuid now writable (Response (IdNum 42) JNull)
            (client_onmessage request_42 (new_proxy ix pm))))
         (IdNum 42)
     = None"
  by (simp add: server_send_failed_def client_onmessage_def new_proxy_def request_42_def
        econnreset_def request_toolName_def server_onmessage_def Let_def)

section \<open>Properties of the orchestrator\<close>

subsection \<open>What pause and stop leave alone\<close>

lemma apply_control_frame:
  "o_graph (apply_control c orch) = o_graph orch"
  "o_calls (apply_control c orch) = o_calls orch"
  "a_flaggedTools (o_state (apply_control c orch)) = a_flaggedTools (o_state orch)"
  "a_maxDepth (o_state (apply_control c orch)) = a_maxDepth (o_state orch)"
  "a_executionHistory (o_state (apply_control c orch)) = a_executionHistory (o_state orch)"
  by (cases c; simp add: pause_def stop_def emitEvent_def)+

lemma run_controls_frame:
  "o_graph (run_controls cs orch) = o_graph orch"
  "o_calls (run_controls cs orch) = o_calls orch"
  "a_flaggedTools (o_state (run_controls cs orch)) = a_flaggedTools (o_state orch)"
  "a_maxDepth (o_state (run_controls cs orch)) = a_maxDepth (o_state orch)"
  "a_executionHistory (o_state (run_controls cs orch)) = a_executionHistory (o_state orch)"
  unfolding run_controls_def
  by (induction cs arbitrary: orch; simp add: apply_control_frame)+

lemma with_controls_frame:
  "o_graph (l_orch (with_controls cs ls)) = o_graph (l_orch ls)"
  "o_calls (l_orch (with_controls cs ls)) = o_calls (l_orch ls)"
  "a_flaggedTools (o_state (l_orch (with_controls cs ls))) = a_flaggedTools (o_state (l_orch ls))"
  "a_maxDepth (o_state (l_orch (with_controls cs ls))) = a_maxDepth (o_state (l_orch ls))"
  "a_executionHistory (o_state (l_orch (with_controls cs ls)))
     = a_executionHistory (o_state (l_orch ls))"
  "l_toolDepths (with_controls cs ls) = l_toolDepths ls"
  "l_executedTools (with_controls cs ls) = l_executedTools ls"
  by (simp_all add: with_controls_def run_controls_frame)

subsection \<open>The stages of an iteration\<close>

lemma select_stage_Inr:
  assumes "select_stage tools io ls = Inr (toolInfo, nodeId, ls3)"
  shows "nodeId = ''tool_'' @ t_name toolInfo @ ''_'' @ show_int (i_now_select io)"
    and "map_of (nodes (o_graph (l_orch ls3))) nodeId
           = Some \<lparr> n_id = nodeId, n_type = ToolNode, n_name = t_name toolInfo, n_data = [],
                    n_timestamp = i_now_select io, n_status = Pending \<rparr>"
    and "o_calls (l_orch ls3) = o_calls (l_orch ls)"
    and "a_flaggedTools (o_state (l_orch ls3)) = a_flaggedTools (o_state (l_orch ls))"
    and "a_maxDepth (o_state (l_orch ls3)) = a_maxDepth (o_state (l_orch ls))"
    and "l_toolDepths ls3 = l_toolDepths ls"
    and "l_executedTools ls3 = l_executedTools ls @ [t_name toolInfo]"
    and "t_name toolInfo \<notin> set (l_executedTools ls)"
    and "find (\<lambda>t. t_name t = t_name toolInfo) tools = Some toolInfo"
  using assms
  by (auto simp: select_stage_def Let_def addPendingTool_def update_conv' with_controls_frame
        split: sum.splits option.splits if_splits prod.splits dest: find_Some_iff [THEN iffD1])


lemma flag_tool_effect:
  assumes "map_of (nodes (o_graph orch)) (f_nodeId flagged) = Some node"
  shows "a_flaggedTools (o_state (flag_tool now flagged skipReason ev orch))
           = a_flaggedTools (o_state orch) @ [flagged]"
    and "map_option n_status (map_of (nodes (o_graph (flag_tool now flagged skipReason ev orch)))
           (f_nodeId flagged)) = Some Skipped"
    and "o_events (flag_tool now flagged skipReason ev orch)
           = o_events orch @ [\<lparr> ev_data = ev, ev_timestamp = now \<rparr>]"
    and "o_calls (flag_tool now flagged skipReason ev orch) = o_calls orch"
  using assms
  by (simp_all add: flag_tool_def emitEvent_def markToolSkipped_def update_conv')

lemma Max_insert_max:
  fixes a b :: int
  assumes "finite S"
  shows "Max (insert (max a b) S) = Max (insert a (insert b S))"
proof (cases "S = {}")
  case True
  then show ?thesis by (simp add: max.commute)
next
  case False
  with assms show ?thesis by (simp add: max.assoc)
qed

lemma source_loop_depth:
  "fst (source_loop g toolDepths sources (m, ps))
     = Max (insert m ((\<lambda>(param, source). source_depth toolDepths (source_tool source))
                        ` set sources))"
proof (induction sources arbitrary: m ps)
  case Nil
  then show ?case by simp
next
  case (Cons e sources)
  obtain param source where e: "e = (param, source)" by (cases e)
  show ?case
    by (simp add: e Let_def Cons.IH Max_insert_max)
qed

lemma source_loop_spec_depth:
  "fst (source_loop g toolDepths sources (0, [])) + 1 = spec_depth toolDepths sources"
  by (simp add: source_loop_depth spec_depth_def)

lemma update_absent: "k \<notin> fst ` set al \<Longrightarrow> AList.update k v al = al @ [(k, v)]"
  by (induction al) auto

lemma call_stage_frame:
  "l_toolDepths (call_stage parse now pc outcome ls) = l_toolDepths ls"
  "l_executedTools (call_stage parse now pc outcome ls) = l_executedTools ls"
  "o_calls (l_orch (call_stage parse now pc outcome ls)) = o_calls (l_orch ls)"
  "a_flaggedTools (o_state (l_orch (call_stage parse now pc outcome ls)))
     = a_flaggedTools (o_state (l_orch ls))"
  by (simp_all add: call_stage_def Let_def emitEvent_def update_step_def split: sum.splits)

text \<open>The three outcomes of the stage that follows \<open>extractParameters\<close>.\<close>

lemma extraction_stage_guard:
  assumes "missingParams_of extraction \<noteq> []" and "confidence_of extraction < 0.5"
  shows "extraction_stage now toolInfo nodeId extraction ls =
     Inl (ls\<lparr>l_orch :=
            flag_tool now
              \<lparr> f_toolName = t_name toolInfo, f_missingParams = missingParams_of extraction,
                f_reason = ''Could not resolve required parameters from available context'',
                f_nodeId = nodeId \<rparr>
              ''Missing parameters''
              (ToolSkippedMissing (t_name toolInfo) (missingParams_of extraction)) (l_orch ls)\<rparr>)"
  using assms by (simp add: extraction_stage_def Let_def)

lemma extraction_stage_too_deep:
  assumes "\<not> (missingParams_of extraction \<noteq> [] \<and> confidence_of extraction < 0.5)"
    and "spec_depth (l_toolDepths ls) (sources_of extraction) > a_maxDepth (o_state (l_orch ls))"
  shows "extraction_stage now toolInfo nodeId extraction ls =
     Inl (ls\<lparr>l_toolDepths := AList.update (t_name toolInfo)
                 (spec_depth (l_toolDepths ls) (sources_of extraction)) (l_toolDepths ls),
             l_orch :=
               flag_tool now
                 \<lparr> f_toolName = t_name toolInfo, f_missingParams = [],
                   f_reason = ''Exceeds max depth (''
                      @ show_int (spec_depth (l_toolDepths ls) (sources_of extraction)) @ '' > ''
                      @ show_int (a_maxDepth (o_state (l_orch ls))) @ '')'',
                   f_nodeId = nodeId \<rparr>
                 ''Exceeds max depth''
                 (ToolSkippedReason (t_name toolInfo) ''Exceeds max depth'') (l_orch ls)\<rparr>)"
  using assms source_loop_spec_depth [of "o_graph (l_orch ls)" "l_toolDepths ls" "sources_of extraction"]
  by (auto simp: extraction_stage_def Let_def split: prod.splits)

lemma extraction_stage_invoke:
  assumes "\<not> (missingParams_of extraction \<noteq> [] \<and> confidence_of extraction < 0.5)"
    and "\<not> spec_depth (l_toolDepths ls) (sources_of extraction) > a_maxDepth (o_state (l_orch ls))"
  shows "\<exists>pc ls'. extraction_stage now toolInfo nodeId extraction ls = Inr (pc, ls')
      \<and> l_toolDepths ls' = AList.update (t_name toolInfo)
            (spec_depth (l_toolDepths ls) (sources_of extraction)) (l_toolDepths ls)
      \<and> l_executedTools ls' = l_executedTools ls
      \<and> o_calls (l_orch ls') = o_calls (l_orch ls) @ [(t_name toolInfo, params_of extraction)]
      \<and> a_flaggedTools (o_state (l_orch ls')) = a_flaggedTools (o_state (l_orch ls))"
  using assms source_loop_spec_depth [of "o_graph (l_orch ls)" "l_toolDepths ls" "sources_of extraction"]
  by (auto simp: extraction_stage_def Let_def emitEvent_def split: prod.splits)


subsection \<open>The depth bound within a run\<close>

text \<open>
  The selection of the Gemini client is a \<open>client_selection\<close>, whatever the model replies.
\<close>

lemma selectNextTool_client_selection:
  assumes "i_select io = selectNextTool parse' tools (l_executedTools ls) availableContext
             (a_currentDepth (o_state (l_orch ls))) (a_maxDepth (o_state (l_orch ls))) reply"
  shows "client_selection ls io"
  using assms by (simp add: client_selection_def selectNextTool_def)

lemma controls_keep_depth:
  "a_currentDepth (o_state (apply_control c orch)) = a_currentDepth (o_state orch)"
  "a_currentDepth (o_state (run_controls cs orch)) = a_currentDepth (o_state orch)"
  "a_currentDepth (o_state (l_orch (with_controls cs ls))) = a_currentDepth (o_state (l_orch ls))"
proof -
  show c: "a_currentDepth (o_state (apply_control c orch)) = a_currentDepth (o_state orch)"
    for c orch
    by (cases c) (simp_all add: pause_def stop_def emitEvent_def)
  show r: "a_currentDepth (o_state (run_controls cs orch)) = a_currentDepth (o_state orch)"
    for cs orch
    unfolding run_controls_def by (induction cs arbitrary: orch) (simp_all add: c)
  show "a_currentDepth (o_state (l_orch (with_controls cs ls))) = a_currentDepth (o_state (l_orch ls))"
    by (simp add: with_controls_def r)
qed

lemma select_stage_selected:
  assumes "select_stage tools io ls = Inr (toolInfo, nodeId, ls3)"
  shows "\<exists>nextTool. i_select io = Inr nextTool \<and> sel_tool nextTool = Some (t_name toolInfo)"
    and "a_currentDepth (o_state (l_orch ls3)) = a_currentDepth (o_state (l_orch ls))"
  using assms
  by (auto simp: select_stage_def Let_def addPendingTool_def controls_keep_depth
        split: sum.splits option.splits if_splits prod.splits dest: find_Some_iff [THEN iffD1])

text \<open>A tool that a client selects is never too deep.\<close>

lemma spec_depth_bounded:
  assumes "depths_bounded ls"
  shows "spec_depth (l_toolDepths ls) sources \<le> a_currentDepth (o_state (l_orch ls)) + 1"
proof -
  have "source_depth (l_toolDepths ls) t \<le> a_currentDepth (o_state (l_orch ls))" for t
    using assms
    by (auto simp: source_depth_def depths_bounded_def split: option.splits dest!: map_of_SomeD)
  then have "Max (insert 0 ((\<lambda>(param, source). source_depth (l_toolDepths ls) (source_tool source))
                          ` set sources)) \<le> a_currentDepth (o_state (l_orch ls))"
    using assms by (auto simp: depths_bounded_def)
  then show ?thesis
    by (simp add: spec_depth_def)
qed

lemma selected_depth_ok:
  assumes sel: "select_stage tools io ls = Inr (toolInfo, nodeId, ls3)"
    and client: "client_selection ls io"
    and inv: "depths_bounded ls"
  shows "spec_depth (l_toolDepths ls) sources \<le> a_maxDepth (o_state (l_orch ls))"
proof -
  from select_stage_selected(1) [OF sel] client
  have "a_currentDepth (o_state (l_orch ls)) < a_maxDepth (o_state (l_orch ls))"
    by (auto simp: client_selection_def)
  with spec_depth_bounded [OF inv, of sources] show ?thesis
    by simp
qed

lemma set_update_cases:
  "(k', v') \<in> set (AList.update k v al) \<Longrightarrow> (k', v') = (k, v) \<or> (k', v') \<in> set al"
  by (induction al) (auto split: if_splits)

lemma extraction_stage_depths_bounded:
  assumes inv: "depths_bounded ls"
    and ok: "spec_depth (l_toolDepths ls) (sources_of extraction) \<le> a_maxDepth (o_state (l_orch ls))"
  shows "case extraction_stage now toolInfo nodeId extraction ls of
           Inl ls5 \<Rightarrow> depths_bounded ls5
         | Inr (pc, ls5) \<Rightarrow> depths_bounded ls5"
proof (cases "missingParams_of extraction \<noteq> [] \<and> confidence_of extraction < 0.5")
  case True
  then have "extraction_stage now toolInfo nodeId extraction ls =
     Inl (ls\<lparr>l_orch :=
            flag_tool now
              \<lparr> f_toolName = t_name toolInfo, f_missingParams = missingParams_of extraction,
                f_reason = ''Could not resolve required parameters from available context'',
                f_nodeId = nodeId \<rparr>
              ''Missing parameters''
              (ToolSkippedMissing (t_name toolInfo) (missingParams_of extraction)) (l_orch ls)\<rparr>)"
    by (simp add: extraction_stage_guard)
  with inv show ?thesis
    by (simp add: depths_bounded_def flag_tool_def emitEvent_def)
next
  case False
  let ?d = "spec_depth (l_toolDepths ls) (sources_of extraction)"
  from ok have nd: "\<not> ?d > a_maxDepth (o_state (l_orch ls))"
    by simp
  have d: "fst (source_loop (o_graph (l_orch ls)) (l_toolDepths ls) (sources_of extraction) (0, [])) + 1
      = ?d"
    by (rule source_loop_spec_depth)
  show ?thesis
    using inv nd d False
    by (auto simp: extraction_stage_def Let_def emitEvent_def depths_bounded_def
          split: prod.splits dest!: set_update_cases)
qed

lemma iteration_depths_bounded:
  assumes inv: "depths_bounded ls" and client: "client_selection ls io"
  shows "depths_bounded (result_state (iteration parse tools io ls))"
proof (cases "select_stage tools io ls")
  case (Inl r)
  with inv show ?thesis
    by (auto simp: iteration_def select_stage_def depths_bounded_def Let_def controls_keep_depth
          with_controls_frame split: sum.splits option.splits if_splits prod.splits)
next
  case (Inr x)
  then obtain toolInfo nodeId ls3 where s: "select_stage tools io ls = Inr (toolInfo, nodeId, ls3)"
    by (cases x) auto
  note f = select_stage_Inr [OF s] select_stage_selected(2) [OF s]
  let ?ls4 = "with_controls (i_during_extract io) ls3"
  have r4: "depths_bounded ?ls4"
    using inv f(6,10) by (simp add: depths_bounded_def with_controls_frame controls_keep_depth)
  show ?thesis
  proof (cases "i_extract io")
    case (Inl err)
    with s r4 show ?thesis by (simp add: iteration_def)
  next
    case (Inr extraction)
    have ok: "spec_depth (l_toolDepths ?ls4) (sources_of extraction)
        \<le> a_maxDepth (o_state (l_orch ?ls4))"
      using selected_depth_ok [OF s client inv, of "sources_of extraction"] f(5,6)
      by (simp add: with_controls_frame)
    from extraction_stage_depths_bounded [OF r4 ok, of "i_now_extract io" toolInfo nodeId]
    show ?thesis
      using s Inr
      by (auto simp: iteration_def depths_bounded_def call_stage_def with_controls_frame
            controls_keep_depth emitEvent_def update_step_def Let_def
            split: sum.splits prod.splits)
  qed
qed

text \<open>
  A loop starts with no recorded depth, and \<open>start()\<close> has set \<open>currentDepth\<close> to 0.
\<close>

lemma depths_bounded_start:
  "0 \<le> a_currentDepth (o_state orch)
   \<Longrightarrow> depths_bounded \<lparr> l_orch = orch, l_executedTools = [], l_toolDepths = [] \<rparr>"
  by (simp add: depths_bounded_def)

subsection \<open>The confidence guard\<close>

text \<open>
  C6. In an iteration that reaches \<open>extractParameters\<close> for a tool and gets an extraction
  with missing parameters: when the confidence is below 0.5 the tool is added to
  \<open>flaggedTools\<close> with the reason of the guard, its node is marked skipped, a
  \<open>tool_skipped\<close> event is the next event, and the tool-call function is not called. When
  the confidence is 0.6, or any other that is not below 0.5, the guard does not fire and
  the tool goes to execution: the tool-call function is called with the tool and the
  extracted parameters, and nothing is flagged. The depth check that lies between does
  not stop a tool that a client has selected in a run, where \<open>currentDepth\<close> bounds the
  recorded depths.
\<close>

theorem confidence_guard:
  assumes sel: "select_stage tools io ls = Inr (toolInfo, nodeId, ls3)"
    and ext: "i_extract io = Inr extraction"
    and miss: "missingParams_of extraction \<noteq> []"
  shows "(confidence_of extraction < 0.5 \<longrightarrow>
           (\<exists>ls'. iteration parse tools io ls = Continue ls'
              \<and> a_flaggedTools (o_state (l_orch ls')) =
                  a_flaggedTools (o_state (l_orch ls)) @
                    [\<lparr> f_toolName = t_name toolInfo,
                       f_missingParams = missingParams_of extraction,
                       f_reason = ''Could not resolve required parameters from available context'',
                       f_nodeId = nodeId \<rparr>]
              \<and> map_option n_status (map_of (nodes (o_graph (l_orch ls'))) nodeId) = Some Skipped
              \<and> o_events (l_orch ls') =
                  o_events (l_orch (with_controls (i_during_extract io) ls3)) @
                    [\<lparr> ev_data = ToolSkippedMissing (t_name toolInfo) (missingParams_of extraction),
                       ev_timestamp = i_now_extract io \<rparr>]
              \<and> o_calls (l_orch ls') = o_calls (l_orch ls)))
       \<and> (0.5 \<le> confidence_of extraction \<and> client_selection ls io \<and> depths_bounded ls \<longrightarrow>
           (\<exists>ls'. iteration parse tools io ls = Continue ls'
              \<and> o_calls (l_orch ls') =
                  o_calls (l_orch ls) @ [(t_name toolInfo, params_of extraction)]
              \<and> a_flaggedTools (o_state (l_orch ls')) = a_flaggedTools (o_state (l_orch ls))))"
proof (intro conjI impI)
  let ?ls4 = "with_controls (i_during_extract io) ls3"
  note s = select_stage_Inr [OF sel]
  have node: "map_of (nodes (o_graph (l_orch ?ls4))) nodeId
      = Some \<lparr> n_id = nodeId, n_type = ToolNode, n_name = t_name toolInfo, n_data = [],
               n_timestamp = i_now_select io, n_status = Pending \<rparr>"
    using s(2) by (simp add: with_controls_frame)
  {
    assume low: "confidence_of extraction < 0.5"
    let ?flagged = "\<lparr> f_toolName = t_name toolInfo,
        f_missingParams = missingParams_of extraction,
        f_reason = ''Could not resolve required parameters from available context'',
        f_nodeId = nodeId \<rparr>"
    let ?orch = "flag_tool (i_now_extract io) ?flagged ''Missing parameters''
        (ToolSkippedMissing (t_name toolInfo) (missingParams_of extraction)) (l_orch ?ls4)"
    have it: "iteration parse tools io ls = Continue (?ls4\<lparr>l_orch := ?orch\<rparr>)"
      by (simp add: iteration_def Let_def sel ext extraction_stage_guard [OF miss low])
    have n: "map_of (nodes (o_graph (l_orch ?ls4))) (f_nodeId ?flagged)
      = Some \<lparr> n_id = nodeId, n_type = ToolNode, n_name = t_name toolInfo, n_data = [],
               n_timestamp = i_now_select io, n_status = Pending \<rparr>"
      using node by simp
    show "\<exists>ls'. iteration parse tools io ls = Continue ls'
              \<and> a_flaggedTools (o_state (l_orch ls')) =
                  a_flaggedTools (o_state (l_orch ls)) @ [?flagged]
              \<and> map_option n_status (map_of (nodes (o_graph (l_orch ls'))) nodeId) = Some Skipped
              \<and> o_events (l_orch ls') =
                  o_events (l_orch ?ls4) @
                    [\<lparr> ev_data = ToolSkippedMissing (t_name toolInfo) (missingParams_of extraction),
                       ev_timestamp = i_now_extract io \<rparr>]
              \<and> o_calls (l_orch ls') = o_calls (l_orch ls)"
      using flag_tool_effect [OF n, of "i_now_extract io" "''Missing parameters''"
          "ToolSkippedMissing (t_name toolInfo) (missingParams_of extraction)"] s(3,4)
      by (intro exI [of _ "?ls4\<lparr>l_orch := ?orch\<rparr>"]) (simp add: it with_controls_frame)
  }
  {
    assume h: "0.5 \<le> confidence_of extraction \<and> client_selection ls io \<and> depths_bounded ls"
    then have ng: "\<not> (missingParams_of extraction \<noteq> [] \<and> confidence_of extraction < 0.5)"
      by simp
    let ?d = "spec_depth (l_toolDepths ls) (sources_of extraction)"
    let ?m = "a_maxDepth (o_state (l_orch ls))"
    have td: "l_toolDepths ?ls4 = l_toolDepths ls" "a_maxDepth (o_state (l_orch ?ls4)) = ?m"
      using s(5,6) by (simp_all add: with_controls_frame)
    from h have "?d \<le> ?m"
      using selected_depth_ok [OF sel, of "sources_of extraction"] by simp
    then have nd: "\<not> spec_depth (l_toolDepths ?ls4) (sources_of extraction)
        > a_maxDepth (o_state (l_orch ?ls4))"
      by (simp add: td)
    from extraction_stage_invoke [OF ng nd, of "i_now_extract io" toolInfo nodeId]
    obtain pc ls5 where st: "extraction_stage (i_now_extract io) toolInfo nodeId extraction ?ls4
          = Inr (pc, ls5)"
        and calls: "o_calls (l_orch ls5) = o_calls (l_orch ?ls4) @ [(t_name toolInfo, params_of extraction)]"
        and fl: "a_flaggedTools (o_state (l_orch ls5)) = a_flaggedTools (o_state (l_orch ?ls4))"
      by blast
    let ?ls' = "call_stage parse (i_now_call io) pc (i_call io) (with_controls (i_during_call io) ls5)"
    have it: "iteration parse tools io ls = Continue ?ls'"
      by (simp add: iteration_def Let_def sel ext st)
    show "\<exists>ls'. iteration parse tools io ls = Continue ls'
              \<and> o_calls (l_orch ls') =
                  o_calls (l_orch ls) @ [(t_name toolInfo, params_of extraction)]
              \<and> a_flaggedTools (o_state (l_orch ls')) = a_flaggedTools (o_state (l_orch ls))"
      using calls fl s(3,4)
      by (intro exI [of _ ?ls']) (simp add: it call_stage_frame with_controls_frame)
  }
qed

text \<open>
  Scenario S4 with confidence 0.4, and the same extraction with confidence 0.6, in the
  first iteration of a run with the depth bound 10, the tool selected by the Gemini client
  from the reply of the model.
\<close>

lemma select_X_parsed:
  "parseJSONResponse parse_demo select_X_text
     = Some (JObj [(''tool'', JStr ''X''), (''reason'', JStr ''next'')])"
  by (simp add: parseJSONResponse_def JSON_parse_demo parse_demo_fun_def demo_texts
        strip_fences_def trim_def is_space_def startsWith_def endsWith_def Let_def)

lemma s4_selection:
  "i_select (s4_io c) = Inr \<lparr> sel_tool = Some ''X'', sel_reason = ''next'' \<rparr>"
  by (simp add: s4_io_def simple_io_def selectNextTool_def select_X_parsed parsed_selection_def
        reply_selection_def tool_named_def Let_def)

lemma select_X:
  "select_stage [tool_named ''X'' [''x'']] (s4_io c) (loop_start 10)
     = Inr (tool_named ''X'' [''x''], ''tool_X_100'',
            \<lparr> l_orch = (running_orch 10)\<lparr>o_graph :=
                 \<lparr> nodes = [(''tool_X_100'',
                      \<lparr> n_id = ''tool_X_100'', n_type = ToolNode, n_name = ''X'', n_data = [],
                        n_timestamp = 100, n_status = Pending \<rparr>)],
                   edges = [], toolResults = [] \<rparr>\<rparr>,
              l_executedTools = [''X''], l_toolDepths = [] \<rparr>)"
  by (simp add: select_stage_def s4_selection)
     (simp add: s4_io_def simple_io_def loop_start_def with_controls_def
        run_controls_def tool_named_def addPendingTool_def new_graph_def running_orch_def
        show_int_def show_nat.simps Let_def)

theorem confidence_guard_witness:
  "i_extract (s4_io 0.4) = Inr (Some (extraction_of [] 0.4 [''x'']))
   \<and> missingParams_of (Some (extraction_of [] 0.4 [''x''])) = [''x'']
   \<and> confidence_of (Some (extraction_of [] 0.4 [''x''])) < 0.5
   \<and> (\<exists>ls'. iteration parse_demo [tool_named ''X'' [''x'']] (s4_io 0.4) (loop_start 10)
             = Continue ls'
         \<and> a_flaggedTools (o_state (l_orch ls')) =
              [\<lparr> f_toolName = ''X'', f_missingParams = [''x''],
                 f_reason = ''Could not resolve required parameters from available context'',
                 f_nodeId = ''tool_X_100'' \<rparr>]
         \<and> map_option n_status (map_of (nodes (o_graph (l_orch ls'))) ''tool_X_100'') = Some Skipped
         \<and> o_events (l_orch ls') =
              [\<lparr> ev_data = ToolSkippedMissing ''X'' [''x''], ev_timestamp = 200 \<rparr>]
         \<and> o_calls (l_orch ls') = [])
   \<and> confidence_of (Some (extraction_of [] 0.6 [''x''])) = 0.6
   \<and> client_selection (loop_start 10) (s4_io 0.6)
   \<and> depths_bounded (loop_start 10)
   \<and> (\<exists>ls'. iteration parse_demo [tool_named ''X'' [''x'']] (s4_io 0.6) (loop_start 10)
             = Continue ls'
         \<and> o_calls (l_orch ls') = [(''X'', JObj [])]
         \<and> a_flaggedTools (o_state (l_orch ls')) = [])"
proof -
  have e4: "i_extract (s4_io 0.4) = Inr (Some (extraction_of [] 0.4 [''x'']))"
    and e6: "i_extract (s4_io 0.6) = Inr (Some (extraction_of [] 0.6 [''x'']))"
    by (simp_all add: s4_io_def simple_io_def)
  have m4: "missingParams_of (Some (extraction_of [] 0.4 [''x''])) \<noteq> []"
    and m6: "missingParams_of (Some (extraction_of [] 0.6 [''x''])) \<noteq> []"
    by (simp_all add: missingParams_of_def extraction_of_def)
  have c4: "confidence_of (Some (extraction_of [] 0.4 [''x''])) < 0.5"
    and c6: "confidence_of (Some (extraction_of [] 0.6 [''x''])) = 0.6"
    by (simp_all add: confidence_of_def extraction_of_def)
  have cl: "client_selection (loop_start 10) (s4_io 0.6)"
    by (rule selectNextTool_client_selection
          [where parse' = parse_demo and tools = "[tool_named ''X'' [''x'']]"
             and availableContext = "[]" and reply = "Inr select_X_text"])
       (simp add: s4_io_def loop_start_def running_orch_def createInitialState_def)
  have inv: "depths_bounded (loop_start 10)"
    by (simp add: depths_bounded_def loop_start_def running_orch_def createInitialState_def)
  note vals = s4_io_def simple_io_def extraction_of_def missingParams_of_def sources_of_def
    params_of_def js_truthy_def tool_named_def loop_start_def running_orch_def
    createInitialState_def with_controls_def run_controls_def
  from confidence_guard [OF select_X e4 m4, of parse_demo] c4
  have low: "\<exists>ls'. iteration parse_demo [tool_named ''X'' [''x'']] (s4_io 0.4) (loop_start 10)
             = Continue ls'
         \<and> a_flaggedTools (o_state (l_orch ls')) =
              [\<lparr> f_toolName = ''X'', f_missingParams = [''x''],
                 f_reason = ''Could not resolve required parameters from available context'',
                 f_nodeId = ''tool_X_100'' \<rparr>]
         \<and> map_option n_status (map_of (nodes (o_graph (l_orch ls'))) ''tool_X_100'') = Some Skipped
         \<and> o_events (l_orch ls') =
              [\<lparr> ev_data = ToolSkippedMissing ''X'' [''x''], ev_timestamp = 200 \<rparr>]
         \<and> o_calls (l_orch ls') = []"
    by (simp add: vals)
  from confidence_guard [OF select_X e6 m6, of parse_demo] c6 cl inv
  have high: "\<exists>ls'. iteration parse_demo [tool_named ''X'' [''x'']] (s4_io 0.6) (loop_start 10)
             = Continue ls'
         \<and> o_calls (l_orch ls') = [(''X'', JObj [])]
         \<and> a_flaggedTools (o_state (l_orch ls')) = []"
    by (simp add: vals)
  from e4 m4 c4 low c6 cl inv high show ?thesis
    by (simp add: missingParams_of_def extraction_of_def)
qed

subsection \<open>The invariant of the loop\<close>

text \<open>
  The loop starts with no recorded depth, and every iteration, however it ends, keeps the
  recorded depths within the executed tools.
\<close>

lemma select_stage_depths_recorded:
  assumes "depths_recorded ls"
  shows "case select_stage tools io ls of
           Inl r \<Rightarrow> depths_recorded (result_state r)
         | Inr (toolInfo, nodeId, ls3) \<Rightarrow> depths_recorded ls3"
  using assms
  by (auto simp add: select_stage_def depths_recorded_def with_controls_def Let_def
        split: sum.splits option.splits prod.splits)

lemma extraction_stage_depths_recorded:
  assumes "depths_recorded ls" and "t_name toolInfo \<in> set (l_executedTools ls)"
  shows "case extraction_stage now toolInfo nodeId extraction ls of
           Inl ls5 \<Rightarrow> depths_recorded ls5
         | Inr (pc, ls5) \<Rightarrow> depths_recorded ls5"
  using assms
  by (auto simp add: extraction_stage_def depths_recorded_def Let_def dom_update
        split: sum.splits prod.splits if_splits)

lemma iteration_depths_recorded:
  assumes "depths_recorded ls"
  shows "depths_recorded (result_state (iteration parse tools io ls))"
proof (cases "select_stage tools io ls")
  case (Inl r)
  with select_stage_depths_recorded [OF assms, of tools io] show ?thesis
    by (simp add: iteration_def)
next
  case (Inr x)
  then obtain toolInfo nodeId ls3 where s: "select_stage tools io ls = Inr (toolInfo, nodeId, ls3)"
    by (cases x) auto
  from select_stage_depths_recorded [OF assms, of tools io] s have r3: "depths_recorded ls3"
    by simp
  from select_stage_Inr [OF s] have ex: "t_name toolInfo \<in> set (l_executedTools ls3)"
    by simp
  let ?ls4 = "with_controls (i_during_extract io) ls3"
  from r3 ex have r4: "depths_recorded ?ls4" "t_name toolInfo \<in> set (l_executedTools ?ls4)"
    by (simp_all add: depths_recorded_def with_controls_def)
  show ?thesis
  proof (cases "i_extract io")
    case (Inl err)
    with s r4 show ?thesis by (simp add: iteration_def)
  next
    case (Inr extraction)
    from extraction_stage_depths_recorded [OF r4, of "i_now_extract io" nodeId extraction]
    show ?thesis
      using s Inr
      by (auto simp add: iteration_def depths_recorded_def call_stage_def with_controls_def Let_def
            split: sum.splits prod.splits)
  qed
qed

lemma execution_loop_depths_recorded:
  assumes "depths_recorded ls"
  shows "case execution_loop parse tools ios ls of
           None \<Rightarrow> True
         | Some (Inl (err, ls')) \<Rightarrow> depths_recorded ls'
         | Some (Inr ls') \<Rightarrow> depths_recorded ls'"
  using assms
proof (induction ios arbitrary: ls)
  case Nil
  then show ?case by simp
next
  case (Cons io ios)
  from iteration_depths_recorded [OF Cons.prems, of parse tools io]
  show ?case
    using Cons.prems Cons.IH
    by (cases "iteration parse tools io ls") simp_all
qed

subsection \<open>The depth rule\<close>

lemma flag_tool_frame:
  "a_maxDepth (o_state (flag_tool now flagged skipReason ev orch)) = a_maxDepth (o_state orch)"
  by (simp add: flag_tool_def emitEvent_def)

text \<open>
  C1. In an iteration that reaches the depth calculation (a tool is selected that is known
  and not executed before, and the confidence guard does not fire), the depth of the tool
  is one plus the greatest recorded depth of its source tools, an unknown source counting
  0 and no sources giving depth 1. No depth was recorded for the tool before, the depth is
  recorded now, and depths stay recorded for executed tools only, so that no later
  iteration records a depth for this name again. If the depth exceeds \<open>maxDepth\<close>, the tool
  is flagged with the reason \<open>Exceeds max depth (X > Y)\<close>, its node is marked skipped, a
  \<open>tool_skipped\<close> event is the next event, and the tool-call function is not called.
\<close>

theorem depth_rule:
  assumes sel: "select_stage tools io ls = Inr (toolInfo, nodeId, ls3)"
    and ext: "i_extract io = Inr extraction"
    and ng: "\<not> (missingParams_of extraction \<noteq> [] \<and> confidence_of extraction < 0.5)"
    and inv: "depths_recorded ls"
  shows "\<exists>ls'. iteration parse tools io ls = Continue ls'
     \<and> map_of (l_toolDepths ls) (t_name toolInfo) = None
     \<and> l_toolDepths ls' =
         l_toolDepths ls @ [(t_name toolInfo, spec_depth (l_toolDepths ls) (sources_of extraction))]
     \<and> depths_recorded ls'
     \<and> (spec_depth (l_toolDepths ls) (sources_of extraction) > a_maxDepth (o_state (l_orch ls)) \<longrightarrow>
          a_flaggedTools (o_state (l_orch ls')) =
            a_flaggedTools (o_state (l_orch ls)) @
              [\<lparr> f_toolName = t_name toolInfo, f_missingParams = [],
                 f_reason = ''Exceeds max depth (''
                    @ show_int (spec_depth (l_toolDepths ls) (sources_of extraction))
                    @ '' > '' @ show_int (a_maxDepth (o_state (l_orch ls))) @ '')'',
                 f_nodeId = nodeId \<rparr>]
          \<and> map_option n_status (map_of (nodes (o_graph (l_orch ls'))) nodeId) = Some Skipped
          \<and> o_events (l_orch ls') =
               o_events (l_orch (with_controls (i_during_extract io) ls3)) @
                 [\<lparr> ev_data = ToolSkippedReason (t_name toolInfo) ''Exceeds max depth'',
                    ev_timestamp = i_now_extract io \<rparr>]
          \<and> o_calls (l_orch ls') = o_calls (l_orch ls))"
proof -
  let ?ls4 = "with_controls (i_during_extract io) ls3"
  let ?d = "spec_depth (l_toolDepths ls) (sources_of extraction)"
  let ?m = "a_maxDepth (o_state (l_orch ls))"
  note s = select_stage_Inr [OF sel]
  have td: "l_toolDepths ?ls4 = l_toolDepths ls" "a_maxDepth (o_state (l_orch ?ls4)) = ?m"
      "l_executedTools ?ls4 = l_executedTools ls @ [t_name toolInfo]"
    using s(5,6,7) by (simp_all add: with_controls_frame)
  from inv s(8) have fresh: "t_name toolInfo \<notin> fst ` set (l_toolDepths ls)"
    by (auto simp: depths_recorded_def)
  then have none: "map_of (l_toolDepths ls) (t_name toolInfo) = None"
    by (simp add: map_of_eq_None_iff)
  have upd: "AList.update (t_name toolInfo) ?d (l_toolDepths ls)
      = l_toolDepths ls @ [(t_name toolInfo, ?d)]"
    using fresh by (rule update_absent)
  have inv': "fst ` set (l_toolDepths ls @ [(t_name toolInfo, ?d)])
      \<subseteq> set (l_executedTools ls @ [t_name toolInfo])"
    using inv by (auto simp: depths_recorded_def)
  show ?thesis
  proof (cases "?d > ?m")
    case True
    then have deep: "spec_depth (l_toolDepths ?ls4) (sources_of extraction)
        > a_maxDepth (o_state (l_orch ?ls4))"
      by (simp add: td)
    let ?flagged = "\<lparr> f_toolName = t_name toolInfo, f_missingParams = [],
        f_reason = ''Exceeds max depth ('' @ show_int ?d @ '' > '' @ show_int ?m @ '')'',
        f_nodeId = nodeId \<rparr>"
    let ?orch = "flag_tool (i_now_extract io) ?flagged ''Exceeds max depth''
        (ToolSkippedReason (t_name toolInfo) ''Exceeds max depth'') (l_orch ?ls4)"
    let ?ls' = "?ls4\<lparr>l_toolDepths := AList.update (t_name toolInfo) ?d (l_toolDepths ?ls4),
        l_orch := ?orch\<rparr>"
    have it: "iteration parse tools io ls = Continue ?ls'"
      using extraction_stage_too_deep [OF ng deep, of "i_now_extract io" toolInfo nodeId]
      by (simp add: iteration_def Let_def sel ext td)
    have n: "map_of (nodes (o_graph (l_orch ?ls4))) (f_nodeId ?flagged)
      = Some \<lparr> n_id = nodeId, n_type = ToolNode, n_name = t_name toolInfo, n_data = [],
             n_timestamp = i_now_select io, n_status = Pending \<rparr>"
      using s(2) by (simp add: with_controls_frame)
    show ?thesis
      using True none inv' flag_tool_effect [OF n, of "i_now_extract io" "''Exceeds max depth''"
          "ToolSkippedReason (t_name toolInfo) ''Exceeds max depth''"] s(3,4)
      by (intro exI [of _ ?ls'])
         (simp add: it td s(6,7) upd depths_recorded_def with_controls_frame)
  next
    case False
    then have nd: "\<not> spec_depth (l_toolDepths ?ls4) (sources_of extraction)
        > a_maxDepth (o_state (l_orch ?ls4))"
      by (simp add: td)
    from extraction_stage_invoke [OF ng nd, of "i_now_extract io" toolInfo nodeId]
    obtain pc ls5 where st: "extraction_stage (i_now_extract io) toolInfo nodeId extraction ?ls4
          = Inr (pc, ls5)"
        and d5: "l_toolDepths ls5 = AList.update (t_name toolInfo)
            (spec_depth (l_toolDepths ?ls4) (sources_of extraction)) (l_toolDepths ?ls4)"
        and e5: "l_executedTools ls5 = l_executedTools ?ls4"
      by blast
    let ?ls' = "call_stage parse (i_now_call io) pc (i_call io) (with_controls (i_during_call io) ls5)"
    have it: "iteration parse tools io ls = Continue ?ls'"
      by (simp add: iteration_def Let_def sel ext st)
    show ?thesis
      using False none inv' d5 e5
      by (intro exI [of _ ?ls'])
         (simp add: it td s(6,7) upd depths_recorded_def call_stage_frame with_controls_frame)
  qed
qed

text \<open>
  Scenario S3 at its third iteration: \<open>A\<close> has depth 1, \<open>B\<close> depth 2, the bound is 2, and
  \<open>C\<close> takes its parameter from \<open>B\<close>.
\<close>

lemma select_C:
  "select_stage [tool_named ''A'' [], tool_named ''B'' [''id''], tool_named ''C'' [''id'']]
       (simple_io [] ''C'' x outcome) s3_state
     = Inr (tool_named ''C'' [''id''], ''tool_C_100'',
            \<lparr> l_orch = (running_orch 2)\<lparr>o_graph :=
                 \<lparr> nodes = [(''tool_C_100'',
                      \<lparr> n_id = ''tool_C_100'', n_type = ToolNode, n_name = ''C'', n_data = [],
                        n_timestamp = 100, n_status = Pending \<rparr>)],
                   edges = [], toolResults = [] \<rparr>\<rparr>,
              l_executedTools = [''A'', ''B'', ''C''],
              l_toolDepths = [(''A'', 1), (''B'', 2)] \<rparr>)"
  by (simp add: select_stage_def simple_io_def s3_state_def with_controls_def
        run_controls_def tool_named_def addPendingTool_def new_graph_def running_orch_def
        show_int_def show_nat.simps Let_def)

theorem depth_rule_witness:
  "depths_recorded s3_state
   \<and> spec_depth (l_toolDepths s3_state) [(''id'', ''B.id'')] = 3
   \<and> a_maxDepth (o_state (l_orch s3_state)) = 2
   \<and> (\<exists>ls'. iteration parse_demo
               [tool_named ''A'' [], tool_named ''B'' [''id''], tool_named ''C'' [''id'']]
               (simple_io [] ''C'' (extraction_of [(''id'', ''B.id'')] 0.9 []) (Inr JNull)) s3_state
             = Continue ls'
         \<and> l_toolDepths ls' = [(''A'', 1), (''B'', 2), (''C'', 3)]
         \<and> depths_recorded ls'
         \<and> a_flaggedTools (o_state (l_orch ls')) =
              [\<lparr> f_toolName = ''C'', f_missingParams = [],
                 f_reason = ''Exceeds max depth (3 > 2)'', f_nodeId = ''tool_C_100'' \<rparr>]
         \<and> map_option n_status (map_of (nodes (o_graph (l_orch ls'))) ''tool_C_100'') = Some Skipped
         \<and> o_events (l_orch ls') =
              [\<lparr> ev_data = ToolSkippedReason ''C'' ''Exceeds max depth'', ev_timestamp = 200 \<rparr>]
         \<and> o_calls (l_orch ls') = [])"
proof -
  let ?x = "extraction_of [(''id'', ''B.id'')] 0.9 []"
  have e: "i_extract (simple_io [] ''C'' ?x (Inr JNull)) = Inr (Some ?x)"
    by (simp add: simple_io_def)
  have ng: "\<not> (missingParams_of (Some ?x) \<noteq> [] \<and> confidence_of (Some ?x) < 0.5)"
    by (simp add: missingParams_of_def extraction_of_def)
  have inv: "depths_recorded s3_state"
    by (simp add: depths_recorded_def s3_state_def)
  have d: "spec_depth (l_toolDepths s3_state) [(''id'', ''B.id'')] = 3"
    by (simp add: spec_depth_def s3_state_def source_depth_def source_tool_def)
  have m: "a_maxDepth (o_state (l_orch s3_state)) = 2"
    by (simp add: s3_state_def running_orch_def)
  have src: "sources_of (Some ?x) = [(''id'', ''B.id'')]"
    by (simp add: sources_of_def extraction_of_def)
  note vals = simple_io_def tool_named_def s3_state_def running_orch_def createInitialState_def
    with_controls_def run_controls_def show_int_def show_nat.simps
  from depth_rule [OF select_C e ng inv, of parse_demo] d m
  have "\<exists>ls'. iteration parse_demo
               [tool_named ''A'' [], tool_named ''B'' [''id''], tool_named ''C'' [''id'']]
               (simple_io [] ''C'' ?x (Inr JNull)) s3_state
             = Continue ls'
         \<and> l_toolDepths ls' = [(''A'', 1), (''B'', 2), (''C'', 3)]
         \<and> depths_recorded ls'
         \<and> a_flaggedTools (o_state (l_orch ls')) =
              [\<lparr> f_toolName = ''C'', f_missingParams = [],
                 f_reason = ''Exceeds max depth (3 > 2)'', f_nodeId = ''tool_C_100'' \<rparr>]
         \<and> map_option n_status (map_of (nodes (o_graph (l_orch ls'))) ''tool_C_100'') = Some Skipped
         \<and> o_events (l_orch ls') =
              [\<lparr> ev_data = ToolSkippedReason ''C'' ''Exceeds max depth'', ev_timestamp = 200 \<rparr>]
         \<and> o_calls (l_orch ls') = []"
    by (simp add: src vals)
  with inv d m show ?thesis by simp
qed

subsection \<open>Stopping a run\<close>

text \<open>
  C4. Scenario S5: tools \<open>A\<close> and \<open>B\<close>; \<open>A\<close> has run when \<open>stop()\<close> is called at time 400,
  while the second \<open>selectNextTool\<close> is awaited; its reply, which selects \<open>B\<close>, arrives at
  time 500. The call of \<open>stop()\<close> sets the status \<open>idle\<close> and emits \<open>status_change\<close>, the
  fifth event of the run. The loop body does not look at the status or at the signal after
  an await, so the late reply is used: \<open>tool_start\<close> and \<open>tool_complete\<close> for \<open>B\<close> are
  emitted and \<open>B\<close> is invoked. The loop then ends at its next test, and the block after
  the loop sets the status \<open>completed\<close>, replaces \<open>endTime\<close> and emits \<open>agent_complete\<close>.
  The step of \<open>A\<close> is still the first entry of the history.
\<close>

theorem stop_is_overridden:
  "\<exists>orch. start parse_demo 0 0 s5_run (configure None new_orchestrator) = Some (Inr orch)
     \<and> a_status (o_state orch) = AgentCompleted
     \<and> a_endTime (o_state orch) = Some 1000
     \<and> take 5 (o_events orch) =
         [\<lparr> ev_data = StatusChange AgentRunning, ev_timestamp = 0 \<rparr>,
          \<lparr> ev_data = AnalysisComplete 2 (JArr []), ev_timestamp = 10 \<rparr>,
          \<lparr> ev_data = ToolStart ''A'' (JObj []) 1, ev_timestamp = 200 \<rparr>,
          \<lparr> ev_data = ToolComplete ''A'' (JObj [(''id'', JStr ''a1'')]) 1, ev_timestamp = 300 \<rparr>,
          \<lparr> ev_data = StatusChange AgentIdle, ev_timestamp = 400 \<rparr>]
     \<and> drop 5 (o_events orch) =
         [\<lparr> ev_data = ToolStart ''B'' (JObj []) 2, ev_timestamp = 600 \<rparr>,
          \<lparr> ev_data = ToolComplete ''B'' JNull 2, ev_timestamp = 700 \<rparr>,
          \<lparr> ev_data = AgentComplete 2 0 1000, ev_timestamp = 1000 \<rparr>]
     \<and> o_calls orch = [(''A'', JObj []), (''B'', JObj [])]
     \<and> map (\<lambda>s. (s_toolName s, s_status s, s_timestamp s)) (a_executionHistory (o_state orch))
         = [(''A'', Completed, 200), (''B'', Completed, 600)]"
  by (simp add: start_def s5_run_def configure_def new_orchestrator_def emitEvent_def
      runExecutionLoop_def run_controls_def createInitialState_def clear_def new_graph_def
      tool_named_def simple_io_def extraction_of_def 
      iteration_def select_stage_def with_controls_def stop_def
      addPendingTool_def show_int_def show_nat.simps 
      extraction_stage_def missingParams_of_def params_of_def sources_of_def
     confidence_of_def markToolRunning_def source_tool_def source_depth_def getToolNodeId_def
     call_stage_def recordToolExecution_def update_step_def param_edges_def
     extractResources_def toVisualizationFormat_def execution_complete_def
     discover_resource_def graph_isIdFieldName_def isIdLikeValue_def string_of_value_def
     is_object_def toLowerCase_def endsWith_def startsWith_def
     Let_def)

end
